theory Spec2Isabelle
  imports Complex_Main
begin

section \<open>The resilience layer of pyidverify: circuit breaker, caches, retry, API client\<close>

text \<open>
  The development embeds \<^verbatim>\<open>src/integrations/external.py\<close> (CircuitBreaker,
  ExternalAPIClient) and \<^verbatim>\<open>src/utils/caching.py\<close> (LRUCache, TTLCache).
  Python's unbounded integers are \<open>int\<close>. Timestamps and durations are Python floats
  (\<^verbatim>\<open>time.time()\<close>); each is the \<open>real\<close> number it denotes, so comparisons are
  the comparisons of the source. Arithmetic on floats rounds. The sum that TTLCache stores
  as an expiry time is therefore not the sum of the reals: it is the float addition,
  which the model takes as the parameter \<open>float_add\<close> and of which nothing is assumed.
  The breaker only subtracts one clock read from a later one, which floats do exactly
  when neither is more than twice the other (and when the earlier one is the initial 0);
  that difference, the response times of \<open>call_api\<close> and the hit rate of the cache
  statistics, which no statement below reads, are computed in the reals.
  Every \<^verbatim>\<open>time.time()\<close> read of the source is an explicit argument of
  the function that performs it, one argument per read.
  The module flag \<^verbatim>\<open>_IMPORTS_AVAILABLE\<close> is an explicit boolean argument
  \<open>imp\<close>.
\<close>

subsection \<open>Exceptions\<close>

datatype exc_class =
    IntegrationError
  | ClientError string
  | TimeoutError
  | TypeError
  | ValueError
  | KeyError
  | CancelledError
  | OtherException string

text \<open>
  \<open>ClientError n\<close> is an instance of aiohttp.ClientError or of its subclass named
  \<open>n\<close>; \<open>TimeoutError\<close> is asyncio.TimeoutError. \<open>CancelledError\<close> is
  asyncio.CancelledError, which derives from BaseException and not from Exception;
  every other class here derives from Exception.

  An exception value: its class and \<^verbatim>\<open>str(e)\<close>.
\<close>

datatype py_exception = Exc exc_class string

fun exc_type :: "py_exception \<Rightarrow> exc_class" where
  "exc_type (Exc c m) = c"

fun str_exc :: "py_exception \<Rightarrow> string" where
  "str_exc (Exc c m) = m"

fun type_name :: "exc_class \<Rightarrow> string" where
  "type_name IntegrationError = ''IntegrationError''"
| "type_name (ClientError n) = n"
| "type_name TimeoutError = ''TimeoutError''"
| "type_name TypeError = ''TypeError''"
| "type_name ValueError = ''ValueError''"
| "type_name KeyError = ''KeyError''"
| "type_name CancelledError = ''CancelledError''"
| "type_name (OtherException n) = n"

subsection \<open>CircuitBreaker (external.py, lines 81-232)\<close>

datatype ServiceState = CLOSED | OPEN | HALF_OPEN

record CircuitBreakerConfig =
  failure_threshold :: int
  recovery_timeout :: int
  success_threshold :: int
  cb_timeout_seconds :: real

text \<open>
  Modelled from the spec: the class AuditLogger of the package \<^verbatim>\<open>security.audit\<close> is
  not among the sources; the specification (6) gives the audit sink as a collaborator that
  receives events. The events the breaker hands to \<^verbatim>\<open>log_event\<close>, which it does only
  when the imports are available, are kept in the list \<open>cb_audit\<close>.

  Field names are global in a theory, so three fields that share a name in the source are
  told apart: \<open>cb_timeout_seconds\<close> is \<^verbatim>\<open>CircuitBreakerConfig.timeout_seconds\<close>,
  \<open>api_config\<close> is \<^verbatim>\<open>ExternalAPIClient.config\<close> and \<open>resp_provider\<close> is
  \<^verbatim>\<open>ExternalServiceResponse.provider\<close>; the private fields of the caches carry the
  prefix of their class (\<open>lru_cache\<close> is \<^verbatim>\<open>LRUCache._cache\<close>).
\<close>

datatype breaker_event =
    CircuitBreakerClosed real
  | CircuitBreakerOpened int real
  | CircuitBreakerHalfOpened real

record CircuitBreaker =
  config :: CircuitBreakerConfig
  state :: ServiceState
  failure_count :: int
  success_count :: int
  last_failure_time :: real
  last_state_change :: real
  cb_audit :: "breaker_event list"

definition CircuitBreaker_init :: "CircuitBreakerConfig \<Rightarrow> real \<Rightarrow> CircuitBreaker" where
  "CircuitBreaker_init cfg now =
     \<lparr>config = cfg, state = CLOSED, failure_count = 0, success_count = 0,
      last_failure_time = 0, last_state_change = now, cb_audit = []\<rparr>"

definition transition_to_closed :: "bool \<Rightarrow> real \<Rightarrow> CircuitBreaker \<Rightarrow> CircuitBreaker" where
  "transition_to_closed imp now cb =
     (let cb = cb\<lparr>state := CLOSED, failure_count := 0, success_count := 0,
                   last_state_change := now\<rparr>
      in if imp then cb\<lparr>cb_audit := cb_audit cb @ [CircuitBreakerClosed (last_state_change cb)]\<rparr>
         else cb)"

definition transition_to_open :: "bool \<Rightarrow> real \<Rightarrow> CircuitBreaker \<Rightarrow> CircuitBreaker" where
  "transition_to_open imp now cb =
     (let cb = cb\<lparr>state := OPEN, success_count := 0, last_state_change := now\<rparr>
      in if imp
         then cb\<lparr>cb_audit := cb_audit cb @
                  [CircuitBreakerOpened (failure_count cb) (last_state_change cb)]\<rparr>
         else cb)"

definition transition_to_half_open :: "bool \<Rightarrow> real \<Rightarrow> CircuitBreaker \<Rightarrow> CircuitBreaker" where
  "transition_to_half_open imp now cb =
     (let cb = cb\<lparr>state := HALF_OPEN, success_count := 0, last_state_change := now\<rparr>
      in if imp
         then cb\<lparr>cb_audit := cb_audit cb @ [CircuitBreakerHalfOpened (last_state_change cb)]\<rparr>
         else cb)"

text \<open>
  \<open>can_execute imp current_time t_change cb\<close>: \<open>current_time\<close> is the read at the top
  of the method, \<open>t_change\<close> the read inside \<^verbatim>\<open>_transition_to_half_open\<close>.
  The result is the returned boolean and the breaker after the call.
\<close>

definition can_execute :: "bool \<Rightarrow> real \<Rightarrow> real \<Rightarrow> CircuitBreaker \<Rightarrow> bool \<times> CircuitBreaker" where
  "can_execute imp current_time t_change cb =
     (if state cb = CLOSED then (True, cb)
      else if state cb = OPEN then
        (if current_time - last_failure_time cb \<ge> real_of_int (recovery_timeout (config cb))
         then (True, transition_to_half_open imp t_change cb)
         else (False, cb))
      else if state cb = HALF_OPEN then (True, cb)
      else (False, cb))"

text \<open>\<open>record_success imp t_change cb\<close>: \<open>t_change\<close> is the read inside
  \<^verbatim>\<open>_transition_to_closed\<close>.\<close>

definition record_success :: "bool \<Rightarrow> real \<Rightarrow> CircuitBreaker \<Rightarrow> CircuitBreaker" where
  "record_success imp t_change cb =
     (if state cb = HALF_OPEN then
        (let cb = cb\<lparr>success_count := success_count cb + 1\<rparr>
         in if success_count cb \<ge> success_threshold (config cb)
            then transition_to_closed imp t_change cb
            else cb)
      else if state cb = CLOSED then cb\<lparr>failure_count := 0\<rparr>
      else cb)"

text \<open>\<open>record_failure imp now t_change cb\<close>: \<open>now\<close> is the read that stamps
  \<^verbatim>\<open>last_failure_time\<close>, \<open>t_change\<close> the read inside \<^verbatim>\<open>_transition_to_open\<close>.\<close>

definition record_failure :: "bool \<Rightarrow> real \<Rightarrow> real \<Rightarrow> CircuitBreaker \<Rightarrow> CircuitBreaker" where
  "record_failure imp now t_change cb =
     (let cb = cb\<lparr>failure_count := failure_count cb + 1, last_failure_time := now\<rparr>
      in if state cb = CLOSED then
           (if failure_count cb \<ge> failure_threshold (config cb)
            then transition_to_open imp t_change cb
            else cb)
         else if state cb = HALF_OPEN then transition_to_open imp t_change cb
         else cb)"

text \<open>Consecutive calls, each with its own clock reads.\<close>

fun record_failures :: "bool \<Rightarrow> (real \<times> real) list \<Rightarrow> CircuitBreaker \<Rightarrow> CircuitBreaker" where
  "record_failures imp [] cb = cb"
| "record_failures imp ((now, t_change) # ts) cb =
     record_failures imp ts (record_failure imp now t_change cb)"

fun record_successes :: "bool \<Rightarrow> real list \<Rightarrow> CircuitBreaker \<Rightarrow> CircuitBreaker" where
  "record_successes imp [] cb = cb"
| "record_successes imp (t_change # ts) cb =
     record_successes imp ts (record_success imp t_change cb)"

subsection \<open>Dictionaries that keep insertion order\<close>

text \<open>
  A Python \<^verbatim>\<open>dict\<close> or \<^verbatim>\<open>OrderedDict\<close> is a list of (key, value) pairs in
  insertion order, first inserted first, with distinct keys.
\<close>

definition dict_contains :: "'k \<Rightarrow> ('k \<times> 'v) list \<Rightarrow> bool" where
  "dict_contains key d = (map_of d key \<noteq> None)"

text \<open>\<^verbatim>\<open>del d[key]\<close> and \<^verbatim>\<open>d.pop(key)\<close> for a key that is present.\<close>

definition dict_del :: "'k \<Rightarrow> ('k \<times> 'v) list \<Rightarrow> ('k \<times> 'v) list" where
  "dict_del key d = filter (\<lambda>kv. fst kv \<noteq> key) d"

text \<open>\<^verbatim>\<open>d[key] = value\<close>: a present key keeps its position, a new key goes last.\<close>

definition dict_assign :: "'k \<Rightarrow> 'v \<Rightarrow> ('k \<times> 'v) list \<Rightarrow> ('k \<times> 'v) list" where
  "dict_assign key v d =
     (if dict_contains key d then map (\<lambda>kv. if fst kv = key then (key, v) else kv) d
      else d @ [(key, v)])"

subsection \<open>CacheStats (caching.py, lines 59-85)\<close>

record CacheStats =
  hits :: int
  misses :: int
  evictions :: int
  current_size :: int
  max_size :: int
  hit_rate :: real
  memory_usage_bytes :: int

definition CacheStats_init :: "int \<Rightarrow> CacheStats" where
  "CacheStats_init maxsize =
     \<lparr>hits = 0, misses = 0, evictions = 0, current_size = 0, max_size = maxsize,
      hit_rate = 0, memory_usage_bytes = 0\<rparr>"

definition update_hit_rate :: "CacheStats \<Rightarrow> CacheStats" where
  "update_hit_rate s =
     (let total = hits s + misses s
      in s\<lparr>hit_rate := (if total > 0 then real_of_int (hits s) / real_of_int total * 100 else 0)\<rparr>)"

subsection \<open>LRUCache (caching.py, lines 87-195)\<close>

record ('k, 'v) LRUCache =
  lru_maxsize :: int
  lru_cache :: "('k \<times> 'v) list"
  lru_stats :: CacheStats

definition LRUCache_init :: "int \<Rightarrow> py_exception + ('k, 'v) LRUCache" where
  "LRUCache_init maxsize =
     (if maxsize \<le> 0 then Inl (Exc ValueError ''maxsize must be positive'')
      else Inr \<lparr>lru_maxsize = maxsize, lru_cache = [], lru_stats = CacheStats_init maxsize\<rparr>)"

text \<open>\<open>LRUCache_get key dflt c\<close> returns the value handed back and the cache after the
  call; \<open>None\<close> is Python's \<^verbatim>\<open>None\<close>.\<close>

definition LRUCache_get ::
  "'k \<Rightarrow> 'v option \<Rightarrow> ('k, 'v) LRUCache \<Rightarrow> 'v option \<times> ('k, 'v) LRUCache" where
  "LRUCache_get key dflt c =
     (case map_of (lru_cache c) key of
        Some v \<Rightarrow>
          (Some v,
           c\<lparr>lru_cache := dict_del key (lru_cache c) @ [(key, v)],
             lru_stats := update_hit_rate ((lru_stats c)\<lparr>hits := hits (lru_stats c) + 1\<rparr>)\<rparr>)
      | None \<Rightarrow>
          (dflt,
           c\<lparr>lru_stats := update_hit_rate ((lru_stats c)\<lparr>misses := misses (lru_stats c) + 1\<rparr>)\<rparr>))"

text \<open>\<^verbatim>\<open>popitem(last=False)\<close> on an empty OrderedDict raises KeyError, whose
  \<^verbatim>\<open>str\<close> is the message between quotes.\<close>

definition LRUCache_set ::
  "'k \<Rightarrow> 'v \<Rightarrow> ('k, 'v) LRUCache \<Rightarrow> py_exception + ('k, 'v) LRUCache" where
  "LRUCache_set key v c =
     (if dict_contains key (lru_cache c) then
        (let d = dict_del key (lru_cache c) @ [(key, v)]
         in Inr (c\<lparr>lru_cache := d,
                   lru_stats := (lru_stats c)\<lparr>current_size := int (length d)\<rparr>\<rparr>))
      else if int (length (lru_cache c)) \<ge> lru_maxsize c then
        (case lru_cache c of
           [] \<Rightarrow> Inl (Exc KeyError ([CHR 0x27] @ ''dictionary is empty'' @ [CHR 0x27]))
         | _ # rest \<Rightarrow>
             (let d = rest @ [(key, v)]
              in Inr (c\<lparr>lru_cache := d,
                        lru_stats := (lru_stats c)\<lparr>evictions := evictions (lru_stats c) + 1,
                                                  current_size := int (length d)\<rparr>\<rparr>)))
      else
        (let d = lru_cache c @ [(key, v)]
         in Inr (c\<lparr>lru_cache := d,
                   lru_stats := (lru_stats c)\<lparr>current_size := int (length d)\<rparr>\<rparr>)))"

definition LRUCache_delete :: "'k \<Rightarrow> ('k, 'v) LRUCache \<Rightarrow> bool \<times> ('k, 'v) LRUCache" where
  "LRUCache_delete key c =
     (if dict_contains key (lru_cache c) then
        (let d = dict_del key (lru_cache c)
         in (True, c\<lparr>lru_cache := d,
                      lru_stats := (lru_stats c)\<lparr>current_size := int (length d)\<rparr>\<rparr>))
      else (False, c))"

text \<open>\<^verbatim>\<open>clear\<close> empties the dictionary first and adds its (then zero) length to the
  evictions.\<close>

definition LRUCache_clear :: "('k, 'v) LRUCache \<Rightarrow> ('k, 'v) LRUCache" where
  "LRUCache_clear c =
     c\<lparr>lru_cache := [],
       lru_stats := (lru_stats c)\<lparr>current_size := 0,
                                 evictions := evictions (lru_stats c) + int (length ([] :: ('k \<times> 'v) list))\<rparr>\<rparr>"

text \<open>
  Python binds the arguments of a call before the body runs. \<^verbatim>\<open>LRUCache.set\<close> declares
  the parameters \<^verbatim>\<open>(key, value)\<close> only, so a call that passes any keyword argument
  besides them raises TypeError and the cache is not touched.
\<close>

definition LRUCache_set_kwargs ::
  "'k \<Rightarrow> 'v \<Rightarrow> (string \<times> 'a) list \<Rightarrow> ('k, 'v) LRUCache \<Rightarrow> py_exception + ('k, 'v) LRUCache" where
  "LRUCache_set_kwargs key v kwargs c =
     (case kwargs of
        [] \<Rightarrow> LRUCache_set key v c
      | (name, _) # _ \<Rightarrow>
          Inl (Exc TypeError
                (''LRUCache.set() got an unexpected keyword argument '' @ [CHR 0x27] @ name @ [CHR 0x27])))"

subsection \<open>Histories of LRUCache calls\<close>

datatype ('k, 'v) cache_op = Get 'k | Set 'k 'v | Delete 'k | Clear

fun apply_op :: "('k, 'v) cache_op \<Rightarrow> ('k, 'v) LRUCache \<Rightarrow> py_exception + ('k, 'v) LRUCache" where
  "apply_op (Get key) c = Inr (snd (LRUCache_get key None c))"
| "apply_op (Set key v) c = LRUCache_set key v c"
| "apply_op (Delete key) c = Inr (snd (LRUCache_delete key c))"
| "apply_op Clear c = Inr (LRUCache_clear c)"

text \<open>A history runs in order and stops at the first call that raises.\<close>

fun run_ops :: "('k, 'v) cache_op list \<Rightarrow> ('k, 'v) LRUCache \<Rightarrow> py_exception + ('k, 'v) LRUCache" where
  "run_ops [] c = Inr c"
| "run_ops (x # xs) c = (case apply_op x c of Inl e \<Rightarrow> Inl e | Inr c' \<Rightarrow> run_ops xs c')"

text \<open>
  The specification's \<^verbatim>\<open>lastAccessed\<close>, in the words of the specification: a \<open>get\<close>
  or a \<open>set\<close> of a key is an access of that key, and \<open>last_access key ops\<close> is the
  position in the history of the latest access of \<open>key\<close>.
\<close>

fun accesses :: "'k \<Rightarrow> ('k, 'v) cache_op \<Rightarrow> bool" where
  "accesses key (Get k) = (k = key)"
| "accesses key (Set k v) = (k = key)"
| "accesses key (Delete k) = False"
| "accesses key Clear = False"

fun last_access_from :: "nat \<Rightarrow> 'k \<Rightarrow> ('k, 'v) cache_op list \<Rightarrow> nat option" where
  "last_access_from i key [] = None"
| "last_access_from i key (x # xs) =
     (case last_access_from (Suc i) key xs of
        Some j \<Rightarrow> Some j
      | None \<Rightarrow> if accesses key x then Some i else None)"

definition last_access :: "'k \<Rightarrow> ('k, 'v) cache_op list \<Rightarrow> nat option" where
  "last_access key ops = last_access_from 0 key ops"

subsection \<open>TTLCache (caching.py, lines 197-332)\<close>

record ('k, 'v) TTLCache =
  ttl_maxsize :: int
  default_ttl :: real
  ttl_cache :: "('k \<times> 'v \<times> real) list"
  ttl_stats :: CacheStats

definition TTLCache_init :: "int \<Rightarrow> real \<Rightarrow> py_exception + ('k, 'v) TTLCache" where
  "TTLCache_init maxsize dttl =
     (if maxsize \<le> 0 then Inl (Exc ValueError ''maxsize must be positive'')
      else if dttl \<le> 0 then Inl (Exc ValueError ''default_ttl must be positive'')
      else Inr \<lparr>ttl_maxsize = maxsize, default_ttl = dttl, ttl_cache = [],
                ttl_stats = CacheStats_init maxsize\<rparr>)"

text \<open>\<open>TTLCache_get current_time key dflt c\<close>: \<open>current_time\<close> is the clock read at the
  top of the method.\<close>

definition TTLCache_get ::
  "real \<Rightarrow> 'k \<Rightarrow> 'v option \<Rightarrow> ('k, 'v) TTLCache \<Rightarrow> 'v option \<times> ('k, 'v) TTLCache" where
  "TTLCache_get current_time key dflt c =
     (let miss = (\<lambda>c. (dflt, c\<lparr>ttl_stats :=
                    update_hit_rate ((ttl_stats c)\<lparr>misses := misses (ttl_stats c) + 1\<rparr>)\<rparr>))
      in case map_of (ttl_cache c) key of
           Some (v, expiry_time) \<Rightarrow>
             if current_time < expiry_time then
               (Some v, c\<lparr>ttl_stats :=
                   update_hit_rate ((ttl_stats c)\<lparr>hits := hits (ttl_stats c) + 1\<rparr>)\<rparr>)
             else
               miss (c\<lparr>ttl_cache := dict_del key (ttl_cache c),
                       ttl_stats := (ttl_stats c)\<lparr>evictions := evictions (ttl_stats c) + 1\<rparr>\<rparr>)
         | None \<Rightarrow> miss c)"

definition clean_expired :: "real \<Rightarrow> ('k, 'v) TTLCache \<Rightarrow> ('k, 'v) TTLCache" where
  "clean_expired current_time c =
     (let expired_keys = map fst (filter (\<lambda>(k, v, expiry_time). current_time \<ge> expiry_time)
                                     (ttl_cache c))
      in c\<lparr>ttl_cache := filter (\<lambda>(k, v, expiry_time). \<not> current_time \<ge> expiry_time) (ttl_cache c),
            ttl_stats := (ttl_stats c)\<lparr>evictions := evictions (ttl_stats c)
                                                    + int (length expired_keys)\<rparr>\<rparr>)"

text \<open>\<^verbatim>\<open>min(keys, key=expiry)\<close>: the first key, in dictionary order, whose expiry time is
  the least; None stands for the ValueError that \<^verbatim>\<open>min\<close> raises on an empty sequence.\<close>

fun min_expiry :: "('k \<times> 'v \<times> real) list \<Rightarrow> ('k \<times> real) option" where
  "min_expiry [] = None"
| "min_expiry ((k, v, e) # rest) =
     (case min_expiry rest of
        None \<Rightarrow> Some (k, e)
      | Some (k', e') \<Rightarrow> if e' < e then Some (k', e') else Some (k, e))"

text \<open>\<open>TTLCache_set float_add now t_clean key v ttl c\<close>: \<open>now\<close> is the clock read that
  gives \<^verbatim>\<open>expiry_time\<close>, \<open>t_clean\<close> the read inside \<^verbatim>\<open>_clean_expired\<close>, and
  \<open>float_add\<close> is the addition of Python floats in \<^verbatim>\<open>time.time() + ttl\<close>, whose
  result is the rounded sum.\<close>

definition TTLCache_set ::
  "(real \<Rightarrow> real \<Rightarrow> real) \<Rightarrow> real \<Rightarrow> real \<Rightarrow> 'k \<Rightarrow> 'v \<Rightarrow> real option \<Rightarrow> ('k, 'v) TTLCache
     \<Rightarrow> py_exception + ('k, 'v) TTLCache" where
  "TTLCache_set float_add now t_clean key v ttl c =
     (let ttl = (case ttl of None \<Rightarrow> default_ttl c | Some t \<Rightarrow> t);
          expiry_time = float_add now ttl;
          c = (if int (length (ttl_cache c)) \<ge> ttl_maxsize c then clean_expired t_clean c else c);
          store = (\<lambda>c. let d = dict_assign key (v, expiry_time) (ttl_cache c)
                       in Inr (c\<lparr>ttl_cache := d,
                                 ttl_stats := (ttl_stats c)\<lparr>current_size := int (length d)\<rparr>\<rparr>))
      in if int (length (ttl_cache c)) \<ge> ttl_maxsize c \<and> \<not> dict_contains key (ttl_cache c) then
           (case min_expiry (ttl_cache c) of
              None \<Rightarrow> Inl (Exc ValueError ''min() arg is an empty sequence'')
            | Some (oldest_key, _) \<Rightarrow>
                store (c\<lparr>ttl_cache := dict_del oldest_key (ttl_cache c),
                         ttl_stats := (ttl_stats c)\<lparr>evictions := evictions (ttl_stats c) + 1\<rparr>\<rparr>))
         else store c)"

text \<open>The order that the OrderedDict keeps: each key is older than the keys after it.\<close>

definition older :: "('k, 'v) cache_op list \<Rightarrow> 'k \<Rightarrow> 'k \<Rightarrow> bool" where
  "older ops a b = (\<exists>i j. last_access a ops = Some i \<and> last_access b ops = Some j \<and> i < j)"

definition recency_ordered :: "('k, 'v) cache_op list \<Rightarrow> 'k list \<Rightarrow> bool" where
  "recency_ordered ops ks =
     (sorted_wrt (older ops) ks \<and>
      (\<forall>k \<in> set ks. \<exists>i. last_access k ops = Some i \<and> i < length ops))"


subsection \<open>JSON values and the external collaborators\<close>

datatype json =
    JNull
  | JBool bool
  | JInt int
  | JStr string
  | JList "json list"
  | JDict "(string \<times> json) list"

text \<open>Decimal text of an integer, as an f-string prints it.\<close>

function str_nat :: "nat \<Rightarrow> string" where
  "str_nat n =
     (if n < 10 then [''0123456789'' ! n]
      else str_nat (n div 10) @ [''0123456789'' ! (n mod 10)])"
  by pat_completeness auto
termination
  by (relation "measure id") auto

declare str_nat.simps [simp del]

definition str_int :: "int \<Rightarrow> string" where
  "str_int i = (if i < 0 then CHR ''-'' # str_nat (nat (- i)) else str_nat (nat i))"

text \<open>
  Modelled from the spec: the class RateLimiter of the package
  \<^verbatim>\<open>security.rate_limiting\<close> is not among the sources. The specification (4.1) gives it
  as a fixed-window counter: if \<open>now - windowStart \<ge> windowDuration\<close> the counter is
  reset to 0 and the window restarts at \<open>now\<close>; then, if \<open>count < maxRequests\<close>, the
  counter is incremented and the call is allowed, otherwise it is denied.
\<close>

record RateLimiter =
  window_start :: real
  request_count :: int
  max_requests :: int
  window_duration :: real

definition RateLimiter_init :: "int \<Rightarrow> real \<Rightarrow> real \<Rightarrow> RateLimiter" where
  "RateLimiter_init maxreq time_window now =
     \<lparr>window_start = now, request_count = 0, max_requests = maxreq,
      window_duration = time_window\<rparr>"

definition allow_request :: "real \<Rightarrow> RateLimiter \<Rightarrow> bool \<times> RateLimiter" where
  "allow_request now rl =
     (let rl = (if now - window_start rl \<ge> window_duration rl
                then rl\<lparr>request_count := 0, window_start := now\<rparr> else rl)
      in if request_count rl < max_requests rl
         then (True, rl\<lparr>request_count := request_count rl + 1\<rparr>)
         else (False, rl))"

text \<open>
  Modelled from the spec: the class AuditLogger of the package \<^verbatim>\<open>security.audit\<close> is
  not among the sources. The specification (6) gives the audit sink as a collaborator that
  receives one record per call; \<^verbatim>\<open>log_api_call\<close> appends the record of its arguments.
\<close>

datatype api_call_event = ApiCallLogged string string bool real string "string option"

text \<open>
  The aiohttp session is the transport. One invocation of \<^verbatim>\<open>session.request\<close> followed
  by \<^verbatim>\<open>response.text()\<close> either raises, or yields a status and a body; the third
  component of \<open>Responds\<close> is what \<^verbatim>\<open>json.loads\<close> returns on that body, \<open>None\<close>
  standing for JSONDecodeError.
\<close>

datatype transport_outcome =
    Raises py_exception
  | Responds int string "json option"

subsection \<open>APIConfiguration, ExternalServiceResponse (external.py, lines 87-132)\<close>

datatype APIProvider = JUMIO | ONFIDO | EXPERIAN | EQUIFAX | WHITEPAGES | TRULIOO | CUSTOM

fun provider_value :: "APIProvider \<Rightarrow> string" where
  "provider_value JUMIO = ''jumio''"
| "provider_value ONFIDO = ''onfido''"
| "provider_value EXPERIAN = ''experian''"
| "provider_value EQUIFAX = ''equifax''"
| "provider_value WHITEPAGES = ''whitepages''"
| "provider_value TRULIOO = ''trulioo''"
| "provider_value CUSTOM = ''custom''"

record APIConfiguration =
  provider :: APIProvider
  base_url :: string
  api_key :: string
  api_secret :: "string option"
  timeout_seconds :: real
  max_retries :: int
  retry_backoff_factor :: real
  rate_limit_per_minute :: int
  use_circuit_breaker :: bool
  cache_ttl_seconds :: int
  enable_audit_logging :: bool
  verify_ssl :: bool
  custom_headers :: "(string \<times> string) list"

record ExternalServiceResponse =
  success :: bool
  data :: json
  error_message :: "string option"
  response_time_ms :: real
  cached :: bool
  resp_provider :: string
  api_call_count :: int
  metadata :: "(string \<times> json) list"

subsection \<open>ExternalAPIClient (external.py, lines 234-464)\<close>

text \<open>
  The fields \<open>rate_limiter\<close>, \<open>response_cache\<close> and \<open>audit_logger\<close> exist in the source
  only when the imports are available; with \<open>imp = False\<close> the model never reads them.
\<close>

record ExternalAPIClient =
  api_config :: APIConfiguration
  circuit_breaker :: "CircuitBreaker option"
  rate_limiter :: RateLimiter
  response_cache :: "(string, ExternalServiceResponse) LRUCache"
  audit_logger :: "api_call_event list"
  call_count :: int
  total_response_time :: real
  error_count :: int

definition default_breaker_config :: CircuitBreakerConfig where
  "default_breaker_config =
     \<lparr>failure_threshold = 5, recovery_timeout = 60, success_threshold = 3,
      cb_timeout_seconds = 30\<rparr>"

definition ExternalAPIClient_init :: "APIConfiguration \<Rightarrow> real \<Rightarrow> ExternalAPIClient" where
  "ExternalAPIClient_init cfg now =
     \<lparr>api_config = cfg,
      circuit_breaker = (if use_circuit_breaker cfg
                         then Some (CircuitBreaker_init default_breaker_config now) else None),
      rate_limiter = RateLimiter_init (rate_limit_per_minute cfg) 60 now,
      response_cache = \<lparr>lru_maxsize = 1000, lru_cache = [], lru_stats = CacheStats_init 1000\<rparr>,
      audit_logger = [],
      call_count = 0,
      total_response_time = 0,
      error_count = 0\<rparr>"

text \<open>
  \<^verbatim>\<open>_generate_cache_key\<close>. The two library functions are parameters:
  \<open>dumps\<close> is \<^verbatim>\<open>json.dumps(_, sort_keys=True)\<close> and \<open>sha256\<close> is
  \<^verbatim>\<open>hashlib.sha256(_.encode()).hexdigest()\<close>. A payload that is \<^verbatim>\<open>None\<close> or an
  empty dict is falsy.
\<close>

definition generate_cache_key ::
  "((string \<times> json) list \<Rightarrow> string) \<Rightarrow> (string \<Rightarrow> string) \<Rightarrow>
   string \<Rightarrow> string \<Rightarrow> (string \<times> json) list option \<Rightarrow> string" where
  "generate_cache_key dumps sha256 endpoint method payload =
     sha256 (endpoint @ '':'' @ method @ '':'' @
             (case payload of None \<Rightarrow> '''' | Some d \<Rightarrow> if d = [] then '''' else dumps d))"

subsection \<open>Retry (external.py, lines 360-406)\<close>

text \<open>The body of \<^verbatim>\<open>_execute_with_retry\<close> after the transport has answered.\<close>

definition execute_once :: "transport_outcome \<Rightarrow> py_exception + json" where
  "execute_once out =
     (case out of
        Raises e \<Rightarrow> Inl e
      | Responds status response_text parsed \<Rightarrow>
          if status \<ge> 400
          then Inl (Exc IntegrationError (''API error '' @ str_int status @ '': '' @ response_text))
          else (case parsed of
                  Some j \<Rightarrow> Inr j
                | None \<Rightarrow> Inr (JDict [(''raw_response'', JStr response_text)])))"

text \<open>The exceptions named in the decorator: aiohttp.ClientError and asyncio.TimeoutError.\<close>

definition retryable :: "py_exception \<Rightarrow> bool" where
  "retryable e = (case exc_type e of ClientError n \<Rightarrow> True | TimeoutError \<Rightarrow> True | _ \<Rightarrow> False)"

text \<open>
  \<^verbatim>\<open>backoff.on_exception(backoff.expo, exceptions, max_tries=...)\<close>: the decorated
  function is called; an exception of the named classes is re-raised when the number of
  tries has reached \<open>max_tries\<close> and otherwise, after the backoff sleep, the function is
  called again; any other exception propagates at once. \<open>target i\<close> is the outcome of
  the \<open>i\<close>-th call. The result is the outcome and the number of calls made.
\<close>

partial_function (option) on_exception ::
  "nat \<Rightarrow> nat \<Rightarrow> (nat \<Rightarrow> py_exception + 'a) \<Rightarrow> ((py_exception + 'a) \<times> nat) option" where
  "on_exception max_tries tries target =
     (case target (Suc tries) of
        Inr ret \<Rightarrow> Some (Inr ret, Suc tries)
      | Inl e \<Rightarrow>
          if retryable e then
            (if Suc tries = max_tries then Some (Inl e, Suc tries)
             else on_exception max_tries (Suc tries) target)
          else Some (Inl e, Suc tries))"

text \<open>
  \<^verbatim>\<open>_execute_with_retry\<close>, decorated with \<^verbatim>\<open>max_tries=3\<close>. The client, endpoint,
  method, payload and headers only make up the request that is handed to the session;
  \<open>transport i\<close> is what the session does at the \<open>i\<close>-th invocation.
\<close>

definition execute_with_retry ::
  "ExternalAPIClient \<Rightarrow> (nat \<Rightarrow> transport_outcome) \<Rightarrow> string \<Rightarrow> string \<Rightarrow>
   (string \<times> json) list option \<Rightarrow> (string \<times> string) list option \<Rightarrow>
   ((py_exception + json) \<times> nat) option" where
  "execute_with_retry self transport endpoint method payload headers =
     on_exception 3 0 (\<lambda>i. execute_once (transport i))"

subsection \<open>call_api (external.py, lines 261-358)\<close>

text \<open>The clock reads that one \<^verbatim>\<open>call_api\<close> can make, one field per read.\<close>

record call_clock =
  t_start :: real
  t_gate :: real
  t_half_open :: real
  t_limit :: real
  t_done :: real
  t_closed :: real
  t_except :: real
  t_open :: real
  t_failed :: real

text \<open>
  The body of the \<^verbatim>\<open>try\<close> block. The result is what the block does (\<open>Inl\<close>: the
  exception it raises, \<open>Inr\<close>: the response it returns), the number of transport
  invocations, and the client as the block leaves it. On a cache hit the object held by the
  cache is the one that is modified and returned, so the cache entry changes with it.
\<close>

definition call_api_try ::
  "bool \<Rightarrow> ((string \<times> json) list \<Rightarrow> string) \<Rightarrow> (string \<Rightarrow> string) \<Rightarrow> call_clock \<Rightarrow>
   (nat \<Rightarrow> transport_outcome) \<Rightarrow> string \<Rightarrow> string \<Rightarrow> (string \<times> json) list option \<Rightarrow>
   (string \<times> string) list option \<Rightarrow> ExternalAPIClient \<Rightarrow>
   ((py_exception + ExternalServiceResponse) \<times> nat \<times> ExternalAPIClient) option" where
  "call_api_try imp dumps sha256 clk transport endpoint method payload headers self =
     (let start_time = t_start clk;
          (blocked, self) =
            (case circuit_breaker self of
               None \<Rightarrow> (False, self)
             | Some cb \<Rightarrow>
                 (let (ok, cb) = can_execute imp (t_gate clk) (t_half_open clk) cb
                  in (\<not> ok, self\<lparr>circuit_breaker := Some cb\<rparr>)))
      in if blocked then
           Some (Inl (Exc IntegrationError ''Circuit breaker is open - service unavailable''),
                 0, self)
         else
           (let (limited, self) =
                  (if imp then
                     (let (ok, rl) = allow_request (t_limit clk) (rate_limiter self)
                      in (\<not> ok, self\<lparr>rate_limiter := rl\<rparr>))
                   else (False, self))
            in if limited then
                 Some (Inl (Exc IntegrationError ''Rate limit exceeded''), 0, self)
               else
                 (let cache_key = generate_cache_key dumps sha256 endpoint method payload;
                      (cached_response, self) =
                        (if imp then
                           (let (r, c) = LRUCache_get cache_key None (response_cache self)
                            in (r, self\<lparr>response_cache := c\<rparr>))
                         else (None, self))
                  in case cached_response of
                       Some r \<Rightarrow>
                         (let r = r\<lparr>cached := True\<rparr>;
                              c = response_cache self
                          in Some (Inr r, 0,
                                   self\<lparr>response_cache :=
                                     c\<lparr>lru_cache := dict_assign cache_key r (lru_cache c)\<rparr>\<rparr>))
                     | None \<Rightarrow>
                         (case execute_with_retry self transport endpoint method payload headers of
                            None \<Rightarrow> None
                          | Some (Inl e, n) \<Rightarrow> Some (Inl e, n, self)
                          | Some (Inr response_data, n) \<Rightarrow>
                              (let response_time = (t_done clk - start_time) * 1000;
                                   self =
                                     (case circuit_breaker self of
                                        None \<Rightarrow> self
                                      | Some cb \<Rightarrow>
                                          self\<lparr>circuit_breaker :=
                                            Some (record_success imp (t_closed clk) cb)\<rparr>);
                                   service_response =
                                     \<lparr>success = True, data = response_data, error_message = None,
                                      response_time_ms = response_time, cached = False,
                                      resp_provider = provider_value (provider (api_config self)),
                                      api_call_count = 1,
                                      metadata = [(''endpoint'', JStr endpoint),
                                                  (''method'', JStr method),
                                                  (''cached'', JBool False)]\<rparr>
                               in case (if imp then
                                          LRUCache_set_kwargs cache_key service_response
                                            [(''ttl'', cache_ttl_seconds (api_config self))]
                                            (response_cache self)
                                        else Inr (response_cache self)) of
                                    Inl e \<Rightarrow> Some (Inl e, n, self)
                                  | Inr c \<Rightarrow>
                                      (let self = self\<lparr>response_cache := c,
                                                        call_count := call_count self + 1,
                                                        total_response_time :=
                                                          total_response_time self + response_time\<rparr>;
                                           self =
                                             (if enable_audit_logging (api_config self) \<and> imp then
                                                self\<lparr>audit_logger := audit_logger self @
                                                  [ApiCallLogged endpoint method True response_time
                                                     (provider_value (provider (api_config self)))
                                                     None]\<rparr>
                                              else self)
                                       in Some (Inr service_response, n, self)))))))"

text \<open>
  \<^verbatim>\<open>call_api\<close>: the \<^verbatim>\<open>try\<close> block and its handler \<^verbatim>\<open>except Exception\<close>, which
  catches every exception but those outside the class Exception. The result is \<open>None\<close> if
  the call does not return; otherwise the response returned (\<open>Inr\<close>) or the exception
  that escapes (\<open>Inl\<close>), the number of transport invocations, and the client after the call.
\<close>

definition call_api ::
  "bool \<Rightarrow> ((string \<times> json) list \<Rightarrow> string) \<Rightarrow> (string \<Rightarrow> string) \<Rightarrow> call_clock \<Rightarrow>
   (nat \<Rightarrow> transport_outcome) \<Rightarrow> string \<Rightarrow> string \<Rightarrow> (string \<times> json) list option \<Rightarrow>
   (string \<times> string) list option \<Rightarrow> ExternalAPIClient \<Rightarrow>
   ((py_exception + ExternalServiceResponse) \<times> nat \<times> ExternalAPIClient) option" where
  "call_api imp dumps sha256 clk transport endpoint method payload headers self =
     (case call_api_try imp dumps sha256 clk transport endpoint method payload headers self of
        None \<Rightarrow> None
      | Some (Inr response, n, self) \<Rightarrow> Some (Inr response, n, self)
      | Some (Inl e, n, self) \<Rightarrow>
          if exc_type e = CancelledError then Some (Inl e, n, self)
          else
            (let self =
                   (case circuit_breaker self of
                      None \<Rightarrow> self
                    | Some cb \<Rightarrow>
                        self\<lparr>circuit_breaker :=
                          Some (record_failure imp (t_except clk) (t_open clk) cb)\<rparr>);
                 self = self\<lparr>error_count := error_count self + 1\<rparr>;
                 response_time = (t_failed clk - t_start clk) * 1000;
                 self =
                   (if enable_audit_logging (api_config self) \<and> imp then
                      self\<lparr>audit_logger := audit_logger self @
                        [ApiCallLogged endpoint method False response_time
                           (provider_value (provider (api_config self))) (Some (str_exc e))]\<rparr>
                    else self)
             in Some (Inr \<lparr>success = False, data = JDict [], error_message = Some (str_exc e),
                            response_time_ms = response_time, cached = False,
                            resp_provider = provider_value (provider (api_config self)),
                            api_call_count = 1,
                            metadata = [(''endpoint'', JStr endpoint),
                                        (''method'', JStr method),
                                        (''error_type'', JStr (type_name (exc_type e)))]\<rparr>,
                      n, self)))"

subsection \<open>Vocabulary of the theorems about call_api\<close>

text \<open>The two gates of \<^verbatim>\<open>call_api\<close>: what each answers and how it leaves the client.\<close>

definition breaker_allows :: "bool \<Rightarrow> call_clock \<Rightarrow> ExternalAPIClient \<Rightarrow> bool" where
  "breaker_allows imp clk self =
     (case circuit_breaker self of
        None \<Rightarrow> True
      | Some cb \<Rightarrow> fst (can_execute imp (t_gate clk) (t_half_open clk) cb))"

definition after_breaker_gate :: "bool \<Rightarrow> call_clock \<Rightarrow> ExternalAPIClient \<Rightarrow> ExternalAPIClient" where
  "after_breaker_gate imp clk self =
     (case circuit_breaker self of
        None \<Rightarrow> self
      | Some cb \<Rightarrow>
          self\<lparr>circuit_breaker := Some (snd (can_execute imp (t_gate clk) (t_half_open clk) cb))\<rparr>)"

definition limiter_allows :: "bool \<Rightarrow> call_clock \<Rightarrow> ExternalAPIClient \<Rightarrow> bool" where
  "limiter_allows imp clk self =
     (if imp then fst (allow_request (t_limit clk) (rate_limiter self)) else True)"

definition after_limiter_gate :: "bool \<Rightarrow> call_clock \<Rightarrow> ExternalAPIClient \<Rightarrow> ExternalAPIClient" where
  "after_limiter_gate imp clk self =
     (if imp then self\<lparr>rate_limiter := snd (allow_request (t_limit clk) (rate_limiter self))\<rparr>
      else self)"

text \<open>What a finished call returned, how often it invoked the transport, and the client it
  left behind.\<close>

definition returned ::
  "((py_exception + ExternalServiceResponse) \<times> nat \<times> ExternalAPIClient) option
     \<Rightarrow> ExternalServiceResponse option" where
  "returned res = (case res of Some (Inr r, n, s) \<Rightarrow> Some r | _ \<Rightarrow> None)"

definition invocations ::
  "((py_exception + ExternalServiceResponse) \<times> nat \<times> ExternalAPIClient) option \<Rightarrow> nat option" where
  "invocations res = (case res of Some (x, n, s) \<Rightarrow> Some n | None \<Rightarrow> None)"

definition client_after ::
  "((py_exception + ExternalServiceResponse) \<times> nat \<times> ExternalAPIClient) option
     \<Rightarrow> ExternalAPIClient option" where
  "client_after res = (case res of Some (x, n, s) \<Rightarrow> Some s | None \<Rightarrow> None)"

subsection \<open>Concrete breakers, caches and calls used to instantiate the theorems\<close>

definition example_config :: CircuitBreakerConfig where
  "example_config =
     \<lparr>failure_threshold = 3, recovery_timeout = 60, success_threshold = 2,
      cb_timeout_seconds = 30\<rparr>"

definition closed_breaker :: CircuitBreaker where
  "closed_breaker = CircuitBreaker_init example_config 0"

definition open_breaker :: CircuitBreaker where
  "open_breaker = record_failures False [(1, 1), (2, 2), (3, 3)] closed_breaker"

definition half_open_breaker :: CircuitBreaker where
  "half_open_breaker = snd (can_execute False 100 100 open_breaker)"


text \<open>The float addition at the inputs of the examples: the sum of 10 and 1 is the float
  11, with no rounding.\<close>

definition example_float_add :: "real \<Rightarrow> real \<Rightarrow> real" where
  "example_float_add a b = a + b"

definition example_ttl_cache :: "(string, int) TTLCache" where
  "example_ttl_cache =
     \<lparr>ttl_maxsize = 2, default_ttl = 3600, ttl_cache = [(''j'', 5, 100)],
      ttl_stats = (CacheStats_init 2)\<lparr>current_size := 1\<rparr>\<rparr>"

definition example_ttl_stored :: "(string, int) TTLCache" where
  "example_ttl_stored =
     \<lparr>ttl_maxsize = 2, default_ttl = 3600, ttl_cache = [(''j'', 5, 100), (''k'', 7, 11)],
      ttl_stats = (CacheStats_init 2)\<lparr>current_size := 2\<rparr>\<rparr>"

definition example_lru_empty :: "(string, int) LRUCache" where
  "example_lru_empty = \<lparr>lru_maxsize = 2, lru_cache = [], lru_stats = CacheStats_init 2\<rparr>"

definition example_lru_full :: "(string, int) LRUCache" where
  "example_lru_full =
     \<lparr>lru_maxsize = 2, lru_cache = [(''b'', 2), (''a'', 1)],
      lru_stats = \<lparr>hits = 1, misses = 0, evictions = 0, current_size = 2, max_size = 2,
                   hit_rate = 100, memory_usage_bytes = 0\<rparr>\<rparr>"

definition example_api_config :: APIConfiguration where
  "example_api_config =
     \<lparr>provider = CUSTOM, base_url = ''https://api.example.com'', api_key = ''key'',
      api_secret = None, timeout_seconds = 30, max_retries = 2, retry_backoff_factor = 2,
      rate_limit_per_minute = 60, use_circuit_breaker = True, cache_ttl_seconds = 3600,
      enable_audit_logging = False, verify_ssl = True, custom_headers = []\<rparr>"

definition example_client :: "CircuitBreaker \<Rightarrow> ExternalAPIClient" where
  "example_client cb =
     \<lparr>api_config = example_api_config,
      circuit_breaker = Some cb,
      rate_limiter = RateLimiter_init 60 60 0,
      response_cache = \<lparr>lru_maxsize = 1000, lru_cache = [], lru_stats = CacheStats_init 1000\<rparr>,
      audit_logger = [],
      call_count = 0,
      total_response_time = 0,
      error_count = 0\<rparr>"

definition example_dumps :: "(string \<times> json) list \<Rightarrow> string" where
  "example_dumps d = ''{...}''"

definition example_sha256 :: "string \<Rightarrow> string" where
  "example_sha256 s = s"

text \<open>Every clock read of the example call happens at time 10.\<close>

definition example_clock :: call_clock where
  "example_clock =
     \<lparr>t_start = 10, t_gate = 10, t_half_open = 10, t_limit = 10, t_done = 10, t_closed = 10,
      t_except = 10, t_open = 10, t_failed = 10\<rparr>"

definition transport_ok :: "nat \<Rightarrow> transport_outcome" where
  "transport_ok i = Responds 200 ''{}'' (Some (JDict []))"



definition transport_timeout :: "nat \<Rightarrow> transport_outcome" where
  "transport_timeout i = Raises (Exc TimeoutError [])"

definition transport_refused :: "nat \<Rightarrow> transport_outcome" where
  "transport_refused i = Raises (Exc (ClientError ''ClientConnectorError'') ''Cannot connect to host'')"

definition example_client_limited :: ExternalAPIClient where
  "example_client_limited =
     (example_client closed_breaker)
       \<lparr>rate_limiter :=
          \<lparr>window_start = 0, request_count = 60, max_requests = 60, window_duration = 60\<rparr>\<rparr>"

text \<open>The calls: against an open breaker, against an exhausted rate limit, with a
  transport that times out, with one that answers 200 and with one that refuses the
  connection.\<close>

definition blocked_call ::
  "((py_exception + ExternalServiceResponse) \<times> nat \<times> ExternalAPIClient) option" where
  "blocked_call =
     call_api False example_dumps example_sha256 example_clock transport_ok
       ''verify'' ''POST'' None None (example_client open_breaker)"

definition limited_call ::
  "((py_exception + ExternalServiceResponse) \<times> nat \<times> ExternalAPIClient) option" where
  "limited_call =
     call_api True example_dumps example_sha256 example_clock transport_ok
       ''verify'' ''POST'' None None example_client_limited"

definition timeout_call ::
  "((py_exception + ExternalServiceResponse) \<times> nat \<times> ExternalAPIClient) option" where
  "timeout_call =
     call_api False example_dumps example_sha256 example_clock transport_timeout
       ''verify'' ''POST'' None None (example_client closed_breaker)"

definition ok_call ::
  "bool \<Rightarrow> ((py_exception + ExternalServiceResponse) \<times> nat \<times> ExternalAPIClient) option" where
  "ok_call imp =
     call_api imp example_dumps example_sha256 example_clock transport_ok
       ''verify'' ''POST'' None None (example_client closed_breaker)"


definition refused_call ::
  "((py_exception + ExternalServiceResponse) \<times> nat \<times> ExternalAPIClient) option" where
  "refused_call =
     call_api False example_dumps example_sha256 example_clock transport_refused
       ''verify'' ''POST'' None None (example_client closed_breaker)"

text \<open>
  A series of calls on one client, as shipped (\<open>imp = False\<close>) and with a transport that
  answers 200: the call at time \<open>t\<close> makes all its clock reads at \<open>t\<close>. The result
  lists, call by call, whether the response has \<open>success\<close> and how often the transport
  was invoked.
\<close>

definition clock_at :: "real \<Rightarrow> call_clock" where
  "clock_at t =
     \<lparr>t_start = t, t_gate = t, t_half_open = t, t_limit = t, t_done = t, t_closed = t,
      t_except = t, t_open = t, t_failed = t\<rparr>"

fun calls_at :: "real list \<Rightarrow> ExternalAPIClient \<Rightarrow> (bool \<times> nat) list" where
  "calls_at [] self = []"
| "calls_at (t # ts) self =
     (case call_api False example_dumps example_sha256 (clock_at t) transport_ok
             ''verify'' ''POST'' None None self of
        Some (Inr r, n, self') \<Rightarrow> (success r, n) # calls_at ts self'
      | _ \<Rightarrow> [])"

section \<open>Theorems\<close>

subsection \<open>Circuit breaker\<close>

lemma example_breakers:
  "closed_breaker = \<lparr>config = example_config, state = CLOSED, failure_count = 0,
      success_count = 0, last_failure_time = 0, last_state_change = 0, cb_audit = []\<rparr>"
  "open_breaker = \<lparr>config = example_config, state = OPEN, failure_count = 3,
      success_count = 0, last_failure_time = 3, last_state_change = 3, cb_audit = []\<rparr>"
  "half_open_breaker = \<lparr>config = example_config, state = HALF_OPEN, failure_count = 3,
      success_count = 0, last_failure_time = 3, last_state_change = 100, cb_audit = []\<rparr>"
  by (simp_all add: closed_breaker_def open_breaker_def half_open_breaker_def
      CircuitBreaker_init_def example_config_def record_failure_def transition_to_open_def
      can_execute_def transition_to_half_open_def Let_def)

lemma record_failure_config [simp]: "config (record_failure imp now tc cb) = config cb"
  by (simp add: record_failure_def transition_to_open_def Let_def)

lemma record_success_config [simp]: "config (record_success imp tc cb) = config cb"
  by (simp add: record_success_def transition_to_closed_def Let_def)

lemma record_failures_snoc:
  "record_failures imp (ts @ [x]) cb = record_failure imp (fst x) (snd x) (record_failures imp ts cb)"
proof (induction ts arbitrary: cb)
  case Nil
  show ?case by (cases x) simp
next
  case (Cons a ts)
  then show ?case by (cases a) simp
qed

lemma record_failures_below_threshold:
  "state cb = CLOSED \<Longrightarrow> failure_count cb + int (length ts) < failure_threshold (config cb) \<Longrightarrow>
   state (record_failures imp ts cb) = CLOSED \<and>
   failure_count (record_failures imp ts cb) = failure_count cb + int (length ts) \<and>
   config (record_failures imp ts cb) = config cb"
proof (induction ts arbitrary: cb)
  case Nil
  then show ?case by simp
next
  case (Cons x ts)
  obtain now tc where x: "x = (now, tc)" by (cases x)
  let ?cb = "record_failure imp now tc cb"
  from Cons.prems have s: "state ?cb = CLOSED" and f: "failure_count ?cb = failure_count cb + 1"
    by (auto simp: record_failure_def Let_def)
  have c: "config ?cb = config cb" by simp
  from Cons.prems f c have "failure_count ?cb + int (length ts) < failure_threshold (config ?cb)"
    by simp
  from Cons.IH[OF s this] f c show ?case by (simp add: x)
qed

lemma record_failure_opens:
  "state cb = CLOSED \<Longrightarrow> failure_count cb + 1 \<ge> failure_threshold (config cb) \<Longrightarrow>
   state (record_failure imp now tc cb) = OPEN \<and> last_failure_time (record_failure imp now tc cb) = now
   \<and> failure_count (record_failure imp now tc cb) = failure_count cb + 1
   \<and> success_count (record_failure imp now tc cb) = 0"
  by (simp add: record_failure_def transition_to_open_def Let_def)

lemma can_execute_open_blocked:
  "state cb = OPEN \<Longrightarrow> now - last_failure_time cb < real_of_int (recovery_timeout (config cb)) \<Longrightarrow>
   can_execute imp now tc cb = (False, cb)"
  by (simp add: can_execute_def)

text \<open>
  Claim C2. A breaker in the Closed state with \<open>failure_count = 0\<close> and
  \<open>failure_threshold = f\<close> (\<open>f \<ge> 1\<close>, the number of calls) is Open after
  \<open>f\<close> consecutive \<open>record_failure\<close> calls, its \<open>last_failure_time\<close> being the
  stamp of the last call; every \<open>can_execute\<close> made while
  \<open>now - last_failure_time < recovery_timeout\<close> then returns False and leaves the
  breaker as it is.
\<close>

theorem breaker_opens_on_threshold:
  assumes "state cb = CLOSED" and "failure_count cb = 0"
    and "failure_threshold (config cb) = int (length ts)" and "ts \<noteq> []"
  shows "state (record_failures imp ts cb) = OPEN \<and>
         last_failure_time (record_failures imp ts cb) = fst (last ts) \<and>
         (\<forall>now tc. now - last_failure_time (record_failures imp ts cb)
                      < real_of_int (recovery_timeout (config cb)) \<longrightarrow>
             can_execute imp now tc (record_failures imp ts cb)
               = (False, record_failures imp ts cb))"
proof -
  from assms(4) obtain ts' x where ts: "ts = ts' @ [x]" by (metis rev_exhaust)
  let ?mid = "record_failures imp ts' cb"
  have "failure_count cb + int (length ts') < failure_threshold (config cb)"
    using assms ts by simp
  from record_failures_below_threshold[OF assms(1) this, of imp]
  have mid: "state ?mid = CLOSED" "failure_count ?mid = int (length ts')" "config ?mid = config cb"
    using assms(2) by auto
  have "failure_count ?mid + 1 \<ge> failure_threshold (config ?mid)"
    using mid assms(3) ts by simp
  from record_failure_opens[OF mid(1) this, of imp "fst x" "snd x"]
  have fin: "state (record_failures imp ts cb) = OPEN"
    "last_failure_time (record_failures imp ts cb) = fst (last ts)"
    by (simp_all add: ts record_failures_snoc)
  have cfg: "config (record_failures imp ts cb) = config cb"
    by (simp add: ts record_failures_snoc mid)
  show ?thesis using fin cfg by (simp add: can_execute_open_blocked)
qed

theorem breaker_opens_on_threshold_witness:
  "state closed_breaker = CLOSED \<and> failure_count closed_breaker = 0 \<and>
   failure_threshold (config closed_breaker) = int (length [(1, 1), (2, 2), (3::real, 3::real)]) \<and>
   state (record_failures False [(1, 1), (2, 2), (3, 3)] closed_breaker) = OPEN \<and>
   last_failure_time (record_failures False [(1, 1), (2, 2), (3, 3)] closed_breaker) = 3 \<and>
   can_execute False 62 62 (record_failures False [(1, 1), (2, 2), (3, 3)] closed_breaker)
     = (False, record_failures False [(1, 1), (2, 2), (3, 3)] closed_breaker)"
proof -
  have h: "state closed_breaker = CLOSED" "failure_count closed_breaker = 0"
    "failure_threshold (config closed_breaker) = int (length [(1, 1), (2, 2), (3::real, 3::real)])"
    "[(1, 1), (2, 2), (3::real, 3::real)] \<noteq> []"
    by (simp_all add: example_breakers example_config_def)
  have r: "recovery_timeout (config closed_breaker) = 60"
    by (simp add: example_breakers example_config_def)
  from breaker_opens_on_threshold [OF h, of False] h r show ?thesis
    by simp
qed

lemma record_success_closed_stays:
  "state cb = CLOSED \<Longrightarrow> success_count cb = 0 \<Longrightarrow>
   state (record_successes imp ts cb) = CLOSED \<and>
   failure_count (record_successes imp ts cb) = (if ts = [] then failure_count cb else 0) \<and>
   success_count (record_successes imp ts cb) = 0"
proof (induction ts arbitrary: cb)
  case Nil
  then show ?case by simp
next
  case (Cons t ts)
  let ?cb = "record_success imp t cb"
  from Cons.prems have s: "state ?cb = CLOSED" "success_count ?cb = 0" "failure_count ?cb = 0"
    by (simp_all add: record_success_def)
  from Cons.IH[OF s(1,2)] s(3) show ?case by simp
qed

lemma record_successes_close:
  "state cb = HALF_OPEN \<Longrightarrow> ts \<noteq> [] \<Longrightarrow>
   success_threshold (config cb) \<le> success_count cb + int (length ts) \<Longrightarrow>
   state (record_successes imp ts cb) = CLOSED \<and>
   failure_count (record_successes imp ts cb) = 0 \<and>
   success_count (record_successes imp ts cb) = 0"
proof (induction ts arbitrary: cb)
  case Nil
  then show ?case by simp
next
  case (Cons t ts)
  let ?cb = "record_success imp t cb"
  show ?case
  proof (cases "success_count cb + 1 \<ge> success_threshold (config cb)")
    case True
    with Cons.prems(1) have s: "state ?cb = CLOSED" "success_count ?cb = 0" "failure_count ?cb = 0"
      by (simp_all add: record_success_def transition_to_closed_def Let_def)
    from record_success_closed_stays[OF s(1,2), of imp ts] s(3) show ?thesis by simp
  next
    case False
    with Cons.prems(1) have s: "state ?cb = HALF_OPEN" "success_count ?cb = success_count cb + 1"
      "config ?cb = config cb"
      by (simp_all add: record_success_def transition_to_closed_def Let_def)
    from False Cons.prems(3) have ne: "ts \<noteq> []" by auto
    from Cons.prems(3) s have "success_threshold (config ?cb) \<le> success_count ?cb + int (length ts)"
      by simp
    from Cons.IH[OF s(1) ne this] show ?thesis by simp
  qed
qed

text \<open>
  Claim C3. (1) For a breaker in the Open state, once
  \<open>now - last_failure_time \<ge> recovery_timeout\<close>, \<open>can_execute\<close> returns True and the
  state becomes HalfOpen with \<open>success_count = 0\<close>. (2) From HalfOpen (with a
  \<open>success_count\<close> that is not negative, as the counter of every breaker is),
  \<open>success_threshold\<close> consecutive \<open>record_success\<close> calls end in Closed with
  \<open>failure_count = 0\<close> and \<open>success_count = 0\<close>. (3) A single
  \<open>record_failure\<close> while HalfOpen leads back to Open.
\<close>

theorem breaker_recovers:
  "(state cb = OPEN \<and> now - last_failure_time cb \<ge> real_of_int (recovery_timeout (config cb)) \<longrightarrow>
      fst (can_execute imp now tc cb) = True \<and>
      state (snd (can_execute imp now tc cb)) = HALF_OPEN \<and>
      success_count (snd (can_execute imp now tc cb)) = 0) \<and>
   (state hb = HALF_OPEN \<and> 0 \<le> success_count hb \<and> ts \<noteq> [] \<and>
    success_threshold (config hb) = int (length ts) \<longrightarrow>
      state (record_successes imp ts hb) = CLOSED \<and>
      failure_count (record_successes imp ts hb) = 0 \<and>
      success_count (record_successes imp ts hb) = 0) \<and>
   (state hb = HALF_OPEN \<longrightarrow> state (record_failure imp t t' hb) = OPEN)"
proof (intro conjI impI)
  assume "state cb = OPEN \<and> now - last_failure_time cb \<ge> real_of_int (recovery_timeout (config cb))"
  then show "fst (can_execute imp now tc cb) = True"
    "state (snd (can_execute imp now tc cb)) = HALF_OPEN"
    "success_count (snd (can_execute imp now tc cb)) = 0"
    by (simp_all add: can_execute_def transition_to_half_open_def Let_def)
next
  assume a: "state hb = HALF_OPEN \<and> 0 \<le> success_count hb \<and> ts \<noteq> [] \<and>
    success_threshold (config hb) = int (length ts)"
  then have "success_threshold (config hb) \<le> success_count hb + int (length ts)" by simp
  with a record_successes_close[of hb ts imp]
  show "state (record_successes imp ts hb) = CLOSED"
    "failure_count (record_successes imp ts hb) = 0"
    "success_count (record_successes imp ts hb) = 0" by simp_all
next
  assume "state hb = HALF_OPEN"
  then show "state (record_failure imp t t' hb) = OPEN"
    by (simp add: record_failure_def transition_to_open_def Let_def)
qed

theorem breaker_recovers_witness:
  "(state open_breaker = OPEN \<and>
    100 - last_failure_time open_breaker \<ge> real_of_int (recovery_timeout (config open_breaker)) \<and>
    fst (can_execute False 100 100 open_breaker) = True \<and>
    state half_open_breaker = HALF_OPEN \<and> success_count half_open_breaker = 0) \<and>
   (success_threshold (config half_open_breaker) = int (length [101, 102 :: real]) \<and>
    state (record_successes False [101, 102] half_open_breaker) = CLOSED \<and>
    failure_count (record_successes False [101, 102] half_open_breaker) = 0 \<and>
    success_count (record_successes False [101, 102] half_open_breaker) = 0) \<and>
   state (record_failure False 101 101 half_open_breaker) = OPEN"
proof -
  have h1: "state open_breaker = OPEN \<and>
    100 - last_failure_time open_breaker \<ge> real_of_int (recovery_timeout (config open_breaker))"
    by (simp add: example_breakers example_config_def)
  have h2: "state half_open_breaker = HALF_OPEN \<and> 0 \<le> success_count half_open_breaker \<and>
    [101, 102 :: real] \<noteq> [] \<and>
    success_threshold (config half_open_breaker) = int (length [101, 102 :: real])"
    by (simp add: example_breakers example_config_def)
  from breaker_recovers [of open_breaker 100 False 100 half_open_breaker "[101, 102]" 101 101]
    h1 h2 show ?thesis
    unfolding half_open_breaker_def [symmetric] by (simp add: half_open_breaker_def)
qed

text \<open>
  Claim C10. For a breaker in the Open state, \<open>record_failure\<close> at time \<open>now\<close> leaves
  the state Open, increments \<open>failure_count\<close> and re-stamps \<open>last_failure_time\<close> to
  \<open>now\<close>; from then on \<open>can_execute\<close> keeps returning False (without changing the
  breaker) at every time before \<open>now + recovery_timeout\<close>, and moves to HalfOpen only at a
  time that is at least \<open>recovery_timeout\<close> after this failure.
\<close>

theorem failure_while_open_restamps:
  assumes "state cb = OPEN"
  shows "state (record_failure imp now t_change cb) = OPEN \<and>
         failure_count (record_failure imp now t_change cb) = failure_count cb + 1 \<and>
         last_failure_time (record_failure imp now t_change cb) = now \<and>
         (\<forall>t tc. t < now + real_of_int (recovery_timeout (config cb)) \<longrightarrow>
            can_execute imp t tc (record_failure imp now t_change cb)
              = (False, record_failure imp now t_change cb)) \<and>
         (\<forall>t tc. t \<ge> now + real_of_int (recovery_timeout (config cb)) \<longrightarrow>
            fst (can_execute imp t tc (record_failure imp now t_change cb)) \<and>
            state (snd (can_execute imp t tc (record_failure imp now t_change cb))) = HALF_OPEN)"
  using assms
  by (simp add: record_failure_def can_execute_def transition_to_half_open_def Let_def)

theorem failure_while_open_restamps_witness:
  "state open_breaker = OPEN \<and>
   state (record_failure False 50 50 open_breaker) = OPEN \<and>
   failure_count (record_failure False 50 50 open_breaker) = 4 \<and>
   last_failure_time (record_failure False 50 50 open_breaker) = 50 \<and>
   can_execute False 100 100 (record_failure False 50 50 open_breaker)
     = (False, record_failure False 50 50 open_breaker) \<and>
   state (snd (can_execute False 110 110 (record_failure False 50 50 open_breaker))) = HALF_OPEN"
proof -
  have h: "state open_breaker = OPEN" by (simp add: example_breakers)
  have c: "failure_count open_breaker = 3" "recovery_timeout (config open_breaker) = 60"
    by (simp_all add: example_breakers example_config_def)
  from failure_while_open_restamps [OF h, of False 50 50] h c show ?thesis
    by simp
qed

subsection \<open>TTLCache\<close>

lemma map_of_dict_assign: "map_of (dict_assign key x d) key = Some x"
proof (cases "dict_contains key d")
  case True
  have "map_of d key \<noteq> None \<Longrightarrow>
        map_of (map (\<lambda>kv. if fst kv = key then (key, x) else kv) d) key = Some x"
    by (induction d) auto
  with True show ?thesis by (simp add: dict_assign_def dict_contains_def)
next
  case False
  then show ?thesis by (simp add: dict_assign_def dict_contains_def map_add_def)
qed

lemma map_of_dict_del: "map_of (dict_del key d) key = None"
  by (induction d) (auto simp: dict_del_def)

lemma map_of_dict_del_other: "k \<noteq> key \<Longrightarrow> map_of (dict_del key d) k = map_of d k"
  by (induction d) (auto simp: dict_del_def)

lemma min_expiry_None: "(min_expiry d = None) = (d = [])"
  by (induction d rule: min_expiry.induct) (auto split: option.splits)

text \<open>
  Claim C7. \<open>set\<close> with time-to-live \<open>ttl\<close> (or the default) at time \<open>now\<close> returns
  normally on a cache built with a positive \<open>maxsize\<close> and stores the key with the
  expiry time that the float addition of \<open>now\<close> and \<open>ttl\<close> gives. For a key stored
  with value \<open>v\<close> and expiry time \<open>expiry\<close>, a \<open>get\<close> at a time before \<open>expiry\<close>
  returns \<open>v\<close> as a hit and keeps the entries; a \<open>get\<close> at a time at or after
  \<open>expiry\<close> returns the default and, in that very call, removes the entry of this key
  and no other: the key is absent afterwards and every other key maps to what it did.
\<close>

theorem ttl_cache_expiry:
  "(0 < ttl_maxsize c \<longrightarrow>
      (\<exists>c'. TTLCache_set float_add now t_clean key v ttl c = Inr c' \<and>
            map_of (ttl_cache c') key
              = Some (v, float_add now (case ttl of None \<Rightarrow> default_ttl c | Some t \<Rightarrow> t)))) \<and>
   (map_of (ttl_cache c2) key = Some (v, expiry) \<longrightarrow>
      (t_hit < expiry \<longrightarrow>
         fst (TTLCache_get t_hit key dflt c2) = Some v \<and>
         ttl_cache (snd (TTLCache_get t_hit key dflt c2)) = ttl_cache c2 \<and>
         hits (ttl_stats (snd (TTLCache_get t_hit key dflt c2))) = hits (ttl_stats c2) + 1) \<and>
      (t_late \<ge> expiry \<longrightarrow>
         fst (TTLCache_get t_late key dflt c2) = dflt \<and>
         ttl_cache (snd (TTLCache_get t_late key dflt c2))
           = filter (\<lambda>kv. fst kv \<noteq> key) (ttl_cache c2) \<and>
         map_of (ttl_cache (snd (TTLCache_get t_late key dflt c2))) key = None \<and>
         (\<forall>k. k \<noteq> key \<longrightarrow>
            map_of (ttl_cache (snd (TTLCache_get t_late key dflt c2))) k
              = map_of (ttl_cache c2) k)))"
proof (intro conjI impI allI)
  assume pos: "0 < ttl_maxsize c"
  define c1 where
    "c1 = (if int (length (ttl_cache c)) \<ge> ttl_maxsize c then clean_expired t_clean c else c)"
  have m: "ttl_maxsize c1 = ttl_maxsize c" "default_ttl c1 = default_ttl c"
    by (simp_all add: c1_def clean_expired_def Let_def)
  show "\<exists>c'. TTLCache_set float_add now t_clean key v ttl c = Inr c' \<and>
            map_of (ttl_cache c') key
              = Some (v, float_add now (case ttl of None \<Rightarrow> default_ttl c | Some t \<Rightarrow> t))"
  proof (cases "int (length (ttl_cache c1)) \<ge> ttl_maxsize c1 \<and> \<not> dict_contains key (ttl_cache c1)")
    case True
    with pos m have "ttl_cache c1 \<noteq> []" by auto
    then obtain k e where "min_expiry (ttl_cache c1) = Some (k, e)"
      using min_expiry_None[of "ttl_cache c1"] by (cases "min_expiry (ttl_cache c1)") auto
    with True show ?thesis
      unfolding TTLCache_set_def c1_def[symmetric] Let_def
      by (simp add: map_of_dict_assign c1_def[symmetric])
  next
    case False
    then show ?thesis
      unfolding TTLCache_set_def c1_def[symmetric] Let_def
      by (auto simp add: map_of_dict_assign)
  qed
next
  assume "map_of (ttl_cache c2) key = Some (v, expiry)" "t_hit < expiry"
  then show "fst (TTLCache_get t_hit key dflt c2) = Some v"
    "ttl_cache (snd (TTLCache_get t_hit key dflt c2)) = ttl_cache c2"
    "hits (ttl_stats (snd (TTLCache_get t_hit key dflt c2))) = hits (ttl_stats c2) + 1"
    by (simp_all add: TTLCache_get_def Let_def update_hit_rate_def)
next
  assume a: "map_of (ttl_cache c2) key = Some (v, expiry)" "t_late \<ge> expiry"
  then have d: "ttl_cache (snd (TTLCache_get t_late key dflt c2)) = dict_del key (ttl_cache c2)"
    by (simp add: TTLCache_get_def Let_def update_hit_rate_def)
  from a show "fst (TTLCache_get t_late key dflt c2) = dflt"
    by (simp add: TTLCache_get_def Let_def update_hit_rate_def)
  from d show "ttl_cache (snd (TTLCache_get t_late key dflt c2))
           = filter (\<lambda>kv. fst kv \<noteq> key) (ttl_cache c2)"
    by (simp add: dict_del_def)
  from d show "map_of (ttl_cache (snd (TTLCache_get t_late key dflt c2))) key = None"
    by (simp add: map_of_dict_del)
  fix k assume "k \<noteq> key"
  with d show "map_of (ttl_cache (snd (TTLCache_get t_late key dflt c2))) k
              = map_of (ttl_cache c2) k"
    by (simp add: map_of_dict_del_other)
qed

theorem ttl_cache_expiry_witness:
  "0 < ttl_maxsize example_ttl_cache \<and>
   TTLCache_set example_float_add 10 10 ''k'' 7 (Some 1) example_ttl_cache
     = Inr example_ttl_stored \<and>
   map_of (ttl_cache example_ttl_stored) ''k'' = Some (7, 11) \<and>
   fst (TTLCache_get 10 ''k'' None example_ttl_stored) = Some 7 \<and>
   ttl_cache (snd (TTLCache_get 10 ''k'' None example_ttl_stored))
     = [(''j'', 5, 100), (''k'', 7, 11)] \<and>
   fst (TTLCache_get 11 ''k'' None example_ttl_stored) = None \<and>
   ttl_cache (snd (TTLCache_get 11 ''k'' None example_ttl_stored)) = [(''j'', 5, 100)]"
proof -
  have h1: "0 < ttl_maxsize example_ttl_cache"
    by (simp add: example_ttl_cache_def)
  have h2: "TTLCache_set example_float_add 10 10 ''k'' 7 (Some 1) example_ttl_cache
      = Inr example_ttl_stored"
    by (simp add: TTLCache_set_def example_ttl_cache_def example_ttl_stored_def Let_def
        dict_assign_def dict_contains_def CacheStats_init_def example_float_add_def)
  have h3: "map_of (ttl_cache example_ttl_stored) ''k'' = Some (7, 11)"
    by (simp add: example_ttl_stored_def)
  have h4: "(10::real) < 11" "(11::real) \<ge> 11" by simp_all
  have l: "ttl_cache example_ttl_stored = [(''j'', 5, 100), (''k'', 7, 11)]"
    by (simp add: example_ttl_stored_def)
  from ttl_cache_expiry [of example_ttl_cache example_float_add 10 10 "''k''" 7 "Some 1"
      example_ttl_stored 11 10 None 11] h1 h2 h3 h4 l
  show ?thesis by simp
qed

subsection \<open>LRUCache\<close>

lemma last_access_from_snoc:
  "last_access_from i key (xs @ [x]) =
     (if accesses key x then Some (i + length xs) else last_access_from i key xs)"
  by (induction xs arbitrary: i) (auto split: option.splits)

lemma last_access_snoc:
  "last_access key (ops @ [x]) = (if accesses key x then Some (length ops) else last_access key ops)"
  by (simp add: last_access_def last_access_from_snoc)

lemma recency_ordered_keep:
  assumes "recency_ordered ops ks" and "\<forall>k \<in> set ks. \<not> accesses k x"
  shows "recency_ordered (ops @ [x]) ks"
proof -
  have "sorted_wrt (older (ops @ [x])) ks"
  proof (rule sorted_wrt_mono_rel[of ks "older ops"])
    fix a b assume "a \<in> set ks" "b \<in> set ks" "older ops a b"
    with assms(2) show "older (ops @ [x]) a b"
      by (auto simp: older_def last_access_snoc)
  next
    from assms(1) show "sorted_wrt (older ops) ks" by (simp add: recency_ordered_def)
  qed
  moreover have "\<forall>k \<in> set ks. \<exists>i. last_access k (ops @ [x]) = Some i \<and> i < length (ops @ [x])"
    using assms by (fastforce simp: recency_ordered_def last_access_snoc)
  ultimately show ?thesis by (simp add: recency_ordered_def)
qed

lemma recency_ordered_touch:
  assumes "recency_ordered ops ks" and "key \<notin> set ks" and "accesses key x"
    and "\<forall>k. accesses k x \<longrightarrow> k = key"
  shows "recency_ordered (ops @ [x]) (ks @ [key])"
proof -
  from assms(2,4) have na: "\<forall>k \<in> set ks. \<not> accesses k x" by auto
  from recency_ordered_keep[OF assms(1) na]
  have keep: "recency_ordered (ops @ [x]) ks" .
  have "\<forall>a \<in> set ks. older (ops @ [x]) a key"
    using assms(1,3) na by (fastforce simp: recency_ordered_def older_def last_access_snoc)
  with keep assms(3) show ?thesis
    by (auto simp: recency_ordered_def sorted_wrt_append last_access_snoc)
qed

lemma recency_ordered_filter:
  "recency_ordered ops ks \<Longrightarrow> recency_ordered ops (filter P ks)"
  by (auto simp: recency_ordered_def sorted_wrt_filter)

lemma recency_ordered_tl:
  "recency_ordered ops ks \<Longrightarrow> recency_ordered ops (tl ks)"
  by (cases ks) (auto simp: recency_ordered_def)

lemma keys_dict_del: "map fst (dict_del key d) = filter (\<lambda>k. k \<noteq> key) (map fst d)"
  by (induction d) (auto simp: dict_del_def)

lemma dict_contains_keys: "dict_contains key d = (key \<in> set (map fst d))"
  by (simp add: dict_contains_def map_of_eq_None_iff)

lemma accesses_Get: "accesses k (Get key :: ('k, 'v) cache_op) = (k = key)"
  by auto

lemma accesses_Set: "accesses k (Set key v) = (k = key)"
  by auto

lemma apply_op_inv:
  assumes inv: "recency_ordered ops (map fst (lru_cache c))"
    and ap: "apply_op x c = Inr c'"
  shows "recency_ordered (ops @ [x]) (map fst (lru_cache c')) \<and> lru_maxsize c' = lru_maxsize c"
proof (cases x)
  case (Get key)
  show ?thesis
  proof (cases "map_of (lru_cache c) key")
    case None
    then have nk: "key \<notin> set (map fst (lru_cache c))"
      by (simp add: map_of_eq_None_iff)
    with None ap Get have c': "lru_cache c' = lru_cache c" "lru_maxsize c' = lru_maxsize c"
      by (auto simp: LRUCache_get_def)
    from nk have "\<forall>k \<in> set (map fst (lru_cache c)). \<not> accesses k x"
      unfolding Get by auto
    from recency_ordered_keep[OF inv this] c' show ?thesis by simp
  next
    case (Some v)
    with ap Get have c': "lru_cache c' = dict_del key (lru_cache c) @ [(key, v)]"
      "lru_maxsize c' = lru_maxsize c"
      by (auto simp: LRUCache_get_def)
    have "recency_ordered (ops @ [x]) (filter (\<lambda>k. k \<noteq> key) (map fst (lru_cache c)) @ [key])"
      by (rule recency_ordered_touch[OF recency_ordered_filter[OF inv]]) (auto simp: Get)
    with c' show ?thesis by (simp add: keys_dict_del)
  qed
next
  case (Set key v)
  show ?thesis
  proof (cases "dict_contains key (lru_cache c)")
    case True
    with ap Set have c': "lru_cache c' = dict_del key (lru_cache c) @ [(key, v)]"
      "lru_maxsize c' = lru_maxsize c"
      by (auto simp: LRUCache_set_def Let_def)
    have "recency_ordered (ops @ [x]) (filter (\<lambda>k. k \<noteq> key) (map fst (lru_cache c)) @ [key])"
      by (rule recency_ordered_touch[OF recency_ordered_filter[OF inv]]) (auto simp: Set)
    with c' show ?thesis by (simp add: keys_dict_del)
  next
    case False
    then have nk: "key \<notin> set (map fst (lru_cache c))" by (simp add: dict_contains_keys)
    show ?thesis
    proof (cases "int (length (lru_cache c)) \<ge> lru_maxsize c")
      case full: True
      with False ap Set obtain kv rest where d: "lru_cache c = kv # rest"
        by (cases "lru_cache c") (auto simp: LRUCache_set_def)
      with full False ap Set have c': "lru_cache c' = tl (lru_cache c) @ [(key, v)]"
        "lru_maxsize c' = lru_maxsize c"
        by (auto simp: LRUCache_set_def Let_def)
      from nk have nk': "key \<notin> set (tl (map fst (lru_cache c)))"
        by (auto simp: d)
      have "recency_ordered (ops @ [x]) (tl (map fst (lru_cache c)) @ [key])"
        by (rule recency_ordered_touch[OF recency_ordered_tl[OF inv] nk']) (auto simp: Set)
      with c' show ?thesis by (simp add: map_tl)
    next
      case notfull: False
      with False ap Set have c': "lru_cache c' = lru_cache c @ [(key, v)]"
        "lru_maxsize c' = lru_maxsize c"
        by (auto simp: LRUCache_set_def Let_def)
      have "recency_ordered (ops @ [x]) (map fst (lru_cache c) @ [key])"
        by (rule recency_ordered_touch[OF inv nk]) (auto simp: Set)
      with c' show ?thesis by simp
    qed
  qed
next
  case (Delete key)
  with ap have c': "lru_cache c' = dict_del key (lru_cache c) \<or> lru_cache c' = lru_cache c"
    "lru_maxsize c' = lru_maxsize c"
    by (auto simp: LRUCache_delete_def Let_def split: if_splits)
  have k1: "recency_ordered (ops @ [x]) (map fst (lru_cache c))"
    by (rule recency_ordered_keep[OF inv]) (simp add: Delete)
  from recency_ordered_filter[OF k1, of "\<lambda>k. k \<noteq> key"] k1 c' show ?thesis
    by (auto simp: keys_dict_del)
next
  case Clear
  with ap have "lru_cache c' = []" "lru_maxsize c' = lru_maxsize c"
    by (auto simp: LRUCache_clear_def)
  then show ?thesis by (simp add: recency_ordered_def)
qed

lemma run_ops_snoc:
  "run_ops (ops @ [x]) c = (case run_ops ops c of Inl e \<Rightarrow> Inl e | Inr c' \<Rightarrow> apply_op x c')"
  by (induction ops arbitrary: c) (auto split: sum.splits)

lemma run_ops_inv:
  assumes "lru_cache c0 = []"
  shows "run_ops ops c0 = Inr c \<Longrightarrow>
         recency_ordered ops (map fst (lru_cache c)) \<and> lru_maxsize c = lru_maxsize c0"
proof (induction ops arbitrary: c rule: rev_induct)
  case Nil
  with assms show ?case by (simp add: recency_ordered_def)
next
  case (snoc x ops)
  from snoc.prems obtain c1 where c1: "run_ops ops c0 = Inr c1" "apply_op x c1 = Inr c"
    by (auto simp: run_ops_snoc split: sum.splits)
  from snoc.IH[OF c1(1)] apply_op_inv[OF _ c1(2), of ops] show ?case by simp
qed

text \<open>
  Claim C8. Take a cache built with capacity \<open>n\<close> and any history \<open>ops\<close> of get, set,
  delete and clear calls on it, after which it holds \<open>n\<close> entries. Setting a key that is
  absent evicts exactly the first entry of the OrderedDict and appends the new one, all
  other entries staying as they were; and the evicted key is the least recently accessed:
  its latest access (a get hit or a set) in \<open>ops\<close> is earlier than the latest access of
  every other entry.
\<close>

theorem lru_evicts_least_recently_accessed:
  assumes "LRUCache_init n = Inr c0"
    and "run_ops ops c0 = Inr c"
    and "int (length (lru_cache c)) = n"
    and "\<not> dict_contains key (lru_cache c)"
  shows "\<exists>ek ev rest c'.
           lru_cache c = (ek, ev) # rest \<and>
           LRUCache_set key v c = Inr c' \<and>
           lru_cache c' = rest @ [(key, v)] \<and>
           (\<forall>k \<in> fst ` set rest.
              \<exists>i j. last_access ek ops = Some i \<and> last_access k ops = Some j \<and> i < j)"
proof -
  from assms(1) have c0: "lru_cache c0 = []" "lru_maxsize c0 = n" "0 < n"
    by (auto simp: LRUCache_init_def split: if_splits)
  from run_ops_inv[OF c0(1) assms(2)] c0
  have inv: "recency_ordered ops (map fst (lru_cache c))" and m: "lru_maxsize c = n" by simp_all
  from assms(3) c0(3) obtain ek ev rest where d: "lru_cache c = (ek, ev) # rest"
    by (cases "lru_cache c") auto
  from assms(3,4) m d
  have s: "LRUCache_set key v c =
       Inr (c\<lparr>lru_cache := rest @ [(key, v)],
              lru_stats := (lru_stats c)\<lparr>evictions := evictions (lru_stats c) + 1,
                 current_size := int (length (rest @ [(key, v)]))\<rparr>\<rparr>)"
    by (simp add: LRUCache_set_def Let_def)
  from inv d have "\<forall>k \<in> fst ` set rest. older ops ek k"
    by (auto simp: recency_ordered_def)
  with d s show ?thesis unfolding older_def by auto
qed

theorem lru_evicts_least_recently_accessed_witness:
  "LRUCache_init 2 = Inr example_lru_empty \<and>
   run_ops [Set ''a'' 1, Set ''b'' 2, Get ''a''] example_lru_empty = Inr example_lru_full \<and>
   int (length (lru_cache example_lru_full)) = 2 \<and>
   \<not> dict_contains ''c'' (lru_cache example_lru_full) \<and>
   lru_cache example_lru_full = [(''b'', 2), (''a'', 1)] \<and>
   (\<exists>c'. LRUCache_set ''c'' 3 example_lru_full = Inr c' \<and>
         lru_cache c' = [(''a'', 1), (''c'', 3)]) \<and>
   last_access ''b'' [Set ''a'' 1, Set ''b'' 2, Get ''a'' :: (string, int) cache_op] = Some 1 \<and>
   last_access ''a'' [Set ''a'' 1, Set ''b'' 2, Get ''a'' :: (string, int) cache_op] = Some 2"
proof -
  have h1: "LRUCache_init 2 = Inr example_lru_empty"
    by (simp add: LRUCache_init_def example_lru_empty_def)
  have h2: "run_ops [Set ''a'' 1, Set ''b'' 2, Get ''a''] example_lru_empty = Inr example_lru_full"
    by (simp add: example_lru_empty_def example_lru_full_def LRUCache_set_def LRUCache_get_def
        dict_contains_def dict_del_def Let_def CacheStats_init_def update_hit_rate_def)
  have h3: "int (length (lru_cache example_lru_full)) = 2"
    by (simp add: example_lru_full_def)
  have h4: "\<not> dict_contains ''c'' (lru_cache example_lru_full)"
    by (simp add: example_lru_full_def dict_contains_def)
  have l: "lru_cache example_lru_full = [(''b'', 2), (''a'', 1)]"
    by (simp add: example_lru_full_def)
  have a: "last_access ''b'' [Set ''a'' 1, Set ''b'' 2, Get ''a'' :: (string, int) cache_op] = Some 1"
    "last_access ''a'' [Set ''a'' 1, Set ''b'' 2, Get ''a'' :: (string, int) cache_op] = Some 2"
    by (simp_all add: last_access_def)
  from lru_evicts_least_recently_accessed [OF h1 h2 h3 h4, of 3] l
  have "\<exists>c'. LRUCache_set ''c'' 3 example_lru_full = Inr c' \<and>
         lru_cache c' = [(''a'', 1), (''c'', 3)]"
    by auto
  with h1 h2 h3 h4 l a show ?thesis by simp
qed

subsection \<open>Retry\<close>

lemma execute_with_retry_cases:
  "execute_with_retry self tr ep m p h =
     Some (case execute_once (tr 1) of
             Inr r \<Rightarrow> (Inr r, 1)
           | Inl e1 \<Rightarrow>
               if \<not> retryable e1 then (Inl e1, 1)
               else (case execute_once (tr 2) of
                       Inr r \<Rightarrow> (Inr r, 2)
                     | Inl e2 \<Rightarrow>
                         if \<not> retryable e2 then (Inl e2, 2)
                         else (case execute_once (tr 3) of
                                 Inr r \<Rightarrow> (Inr r, 3)
                               | Inl e3 \<Rightarrow> (Inl e3, 3))))"
  unfolding execute_with_retry_def
  apply (subst on_exception.simps)
  apply (subst on_exception.simps)
  apply (subst on_exception.simps)
  apply (simp add: numeral_2_eq_2 numeral_3_eq_3 split: sum.splits)
  done




subsection \<open>The paths through call_api\<close>

lemma blocked_breaker_unchanged:
  "\<not> fst (can_execute imp t t' cb) \<Longrightarrow> snd (can_execute imp t t' cb) = cb"
  by (simp add: can_execute_def split: if_splits)

lemma blocked_breaker_open:
  "\<not> fst (can_execute imp t t' cb) \<Longrightarrow> state cb = OPEN"
  by (cases "state cb") (simp_all add: can_execute_def split: if_splits)

lemma after_breaker_gate_blocked:
  "\<not> breaker_allows imp clk self \<Longrightarrow> after_breaker_gate imp clk self = self"
  by (auto simp: breaker_allows_def after_breaker_gate_def blocked_breaker_unchanged
      split: option.splits)

lemma try_blocked:
  "\<not> breaker_allows imp clk self \<Longrightarrow>
   call_api_try imp dumps sha clk tr ep m p h self =
     Some (Inl (Exc IntegrationError ''Circuit breaker is open - service unavailable''), 0, self)"
  by (auto simp: call_api_try_def breaker_allows_def Let_def split_def blocked_breaker_unchanged
      split: option.splits)

lemma try_limited:
  "breaker_allows imp clk self \<Longrightarrow> \<not> limiter_allows imp clk self \<Longrightarrow>
   call_api_try imp dumps sha clk tr ep m p h self =
     Some (Inl (Exc IntegrationError ''Rate limit exceeded''), 0,
           after_limiter_gate imp clk (after_breaker_gate imp clk self))"
  by (auto simp: call_api_try_def breaker_allows_def limiter_allows_def after_breaker_gate_def
      after_limiter_gate_def Let_def split_def split: option.splits if_splits)


lemma try_hit:
  assumes "imp" and "breaker_allows imp clk self" and "limiter_allows imp clk self"
    and "map_of (lru_cache (response_cache self)) (generate_cache_key dumps sha ep m p) = Some r"
  shows "call_api_try imp dumps sha clk tr ep m p h self =
     Some (Inr (r\<lparr>cached := True\<rparr>), 0,
           (after_limiter_gate imp clk (after_breaker_gate imp clk self))
             \<lparr>response_cache :=
                (snd (LRUCache_get (generate_cache_key dumps sha ep m p) None (response_cache self)))
                  \<lparr>lru_cache :=
                     dict_assign (generate_cache_key dumps sha ep m p) (r\<lparr>cached := True\<rparr>)
                       (lru_cache (snd (LRUCache_get (generate_cache_key dumps sha ep m p) None
                          (response_cache self))))\<rparr>\<rparr>)"
  using assms
  by (auto simp: call_api_try_def breaker_allows_def limiter_allows_def after_breaker_gate_def
      after_limiter_gate_def LRUCache_get_def Let_def split_def split: option.splits)

lemma try_miss:
  assumes "breaker_allows imp clk self" and "limiter_allows imp clk self"
    and "imp \<Longrightarrow> map_of (lru_cache (response_cache self)) (generate_cache_key dumps sha ep m p) = None"
    and "execute_with_retry s1 tr ep m p h = Some (res, n)"
    and "s1 = (if imp then (after_limiter_gate imp clk (after_breaker_gate imp clk self))
                 \<lparr>response_cache :=
                    snd (LRUCache_get (generate_cache_key dumps sha ep m p) None (response_cache self))\<rparr>
               else after_breaker_gate imp clk self)"
  shows "call_api_try imp dumps sha clk tr ep m p h self =
     (case res of
        Inl e \<Rightarrow> Some (Inl e, n, s1)
      | Inr response_data \<Rightarrow>
          (let s2 = (case circuit_breaker s1 of
                       None \<Rightarrow> s1
                     | Some cb \<Rightarrow> s1\<lparr>circuit_breaker := Some (record_success imp (t_closed clk) cb)\<rparr>)
           in if imp then
                Some (Inl (Exc TypeError
                  (''LRUCache.set() got an unexpected keyword argument '' @ [CHR 0x27] @ ''ttl'' @ [CHR 0x27])),
                  n, s2)
              else
                Some (Inr \<lparr>success = True, data = response_data, error_message = None,
                             response_time_ms = (t_done clk - t_start clk) * 1000, cached = False,
                             resp_provider = provider_value (provider (api_config self)),
                             api_call_count = 1,
                             metadata = [(''endpoint'', JStr ep), (''method'', JStr m),
                                         (''cached'', JBool False)]\<rparr>,
                      n,
                      s2\<lparr>call_count := call_count self + 1,
                         total_response_time :=
                           total_response_time self + (t_done clk - t_start clk) * 1000\<rparr>)))"
proof (cases imp)
  case True
  with assms(3) have miss: "map_of (lru_cache (response_cache self)) (generate_cache_key dumps sha ep m p) = None"
    by simp
  have ew: "execute_with_retry s tr ep m p h = Some (res, n)" for s
    using assms(4) by (simp add: execute_with_retry_def)
  from True assms(1,2) miss show ?thesis
    unfolding assms(5)
    by (cases res)
      (auto simp: call_api_try_def breaker_allows_def limiter_allows_def after_breaker_gate_def
        after_limiter_gate_def LRUCache_get_def LRUCache_set_kwargs_def Let_def split_def ew
        split: option.splits)
next
  case False
  have ew: "execute_with_retry s tr ep m p h = Some (res, n)" for s
    using assms(4) by (simp add: execute_with_retry_def)
  from False assms(1,2) show ?thesis
    unfolding assms(5)
    by (cases res)
      (auto simp: call_api_try_def breaker_allows_def limiter_allows_def after_breaker_gate_def
        after_limiter_gate_def Let_def split_def ew
        split: option.splits)
qed

lemma handler_result:
  assumes "call_api_try imp dumps sha clk tr ep m p h self = Some (Inl e, n, s1)"
    and "exc_type e \<noteq> CancelledError"
  shows "\<exists>r s'. call_api imp dumps sha clk tr ep m p h self = Some (Inr r, n, s') \<and>
           \<not> success r \<and> error_message r = Some (str_exc e) \<and>
           map_of (metadata r) ''error_type'' = Some (JStr (type_name (exc_type e))) \<and>
           circuit_breaker s' =
             map_option (record_failure imp (t_except clk) (t_open clk)) (circuit_breaker s1) \<and>
           rate_limiter s' = rate_limiter s1 \<and> response_cache s' = response_cache s1 \<and>
           error_count s' = error_count s1 + 1 \<and> call_count s' = call_count s1"
  using assms
  by (auto simp: call_api_def Let_def split: option.splits)

lemma retry_exception_not_cancelled:
  assumes "\<forall>i msg. tr i \<noteq> Raises (Exc CancelledError msg)"
    and "execute_with_retry self tr ep m p h = Some (Inl e, n)"
  shows "exc_type e \<noteq> CancelledError"
proof -
  have one: "execute_once (tr i) = Inl e \<Longrightarrow> exc_type e \<noteq> CancelledError" for i e
  proof -
    assume a: "execute_once (tr i) = Inl e"
    show "exc_type e \<noteq> CancelledError"
    proof (cases "tr i")
      case (Raises e')
      with a have "e' = e" by (simp add: execute_once_def)
      with Raises assms(1) show ?thesis by (cases e) auto
    next
      case (Responds st tx pa)
      with a show ?thesis by (auto simp: execute_once_def split: if_splits option.splits)
    qed
  qed
  from assms(2) show ?thesis
    by (auto simp: execute_with_retry_cases one split: sum.splits if_splits)
qed


lemma execute_with_retry_any_client:
  "execute_with_retry s tr ep m p h = execute_with_retry s' tr ep m p h"
  by (simp add: execute_with_retry_def)

lemma try_miss_raises:
  assumes "breaker_allows imp clk self" and "limiter_allows imp clk self"
    and "imp \<longrightarrow> map_of (lru_cache (response_cache self)) (generate_cache_key dumps sha ep m p) = None"
    and "execute_with_retry self tr ep m p h = Some (Inl e, n)"
  shows "\<exists>s1. call_api_try imp dumps sha clk tr ep m p h self = Some (Inl e, n, s1)"
proof -
  define s1 where "s1 = (if imp then (after_limiter_gate imp clk (after_breaker_gate imp clk self))
                 \<lparr>response_cache :=
                    snd (LRUCache_get (generate_cache_key dumps sha ep m p) None (response_cache self))\<rparr>
               else after_breaker_gate imp clk self)"
  have e: "execute_with_retry s1 tr ep m p h = Some (Inl e, n)"
    using assms(4) execute_with_retry_any_client[of s1 tr ep m p h self] by simp
  from assms(3) have m: "imp \<Longrightarrow> map_of (lru_cache (response_cache self)) (generate_cache_key dumps sha ep m p) = None"
    by simp
  from try_miss[OF assms(1,2) m e s1_def] show ?thesis by simp
qed

lemma call_api_try_total:
  "\<exists>res n s1. call_api_try imp dumps sha clk tr ep m p h self = Some (res, n, s1) \<and>
     (\<forall>e. res = Inl e \<longrightarrow>
        exc_type e = IntegrationError \<or> exc_type e = TypeError \<or>
        (\<exists>k. execute_with_retry self tr ep m p h = Some (Inl e, k)))"
proof (cases "breaker_allows imp clk self")
  case False
  from try_blocked[OF False] show ?thesis by simp
next
  case ba: True
  show ?thesis
  proof (cases "limiter_allows imp clk self")
    case False
    from try_limited[OF ba False] show ?thesis by simp
  next
    case la: True
    show ?thesis
    proof (cases "imp \<and> map_of (lru_cache (response_cache self)) (generate_cache_key dumps sha ep m p) \<noteq> None")
      case True
      then obtain r where "map_of (lru_cache (response_cache self)) (generate_cache_key dumps sha ep m p) = Some r"
        by auto
      from try_hit[OF _ ba la this] True show ?thesis by simp
    next
      case False
      then have miss: "imp \<Longrightarrow> map_of (lru_cache (response_cache self)) (generate_cache_key dumps sha ep m p) = None"
        by simp
      define s1 where "s1 = (if imp then (after_limiter_gate imp clk (after_breaker_gate imp clk self))
                 \<lparr>response_cache :=
                    snd (LRUCache_get (generate_cache_key dumps sha ep m p) None (response_cache self))\<rparr>
               else after_breaker_gate imp clk self)"
      obtain res n where e: "execute_with_retry s1 tr ep m p h = Some (res, n)"
        by (cases "execute_with_retry s1 tr ep m p h") (auto simp: execute_with_retry_cases)
      then have e': "execute_with_retry self tr ep m p h = Some (res, n)"
        using execute_with_retry_any_client[of s1 tr ep m p h self] by simp
      from try_miss[OF ba la miss e s1_def] e' show ?thesis
        by (cases res) (auto simp: Let_def)
    qed
  qed
qed

lemma record_failure_counts:
  "failure_count (record_failure imp now tc cb) = failure_count cb + 1"
  "last_failure_time (record_failure imp now tc cb) = now"
  by (simp_all add: record_failure_def transition_to_open_def Let_def)

lemma record_failure_open:
  "state cb = OPEN \<Longrightarrow> state (record_failure imp now tc cb) = OPEN \<and>
     success_count (record_failure imp now tc cb) = success_count cb"
  by (simp add: record_failure_def Let_def)

lemma can_execute_frame:
  "failure_count (snd (can_execute imp t tc cb)) = failure_count cb"
  "last_failure_time (snd (can_execute imp t tc cb)) = last_failure_time cb"
  "state cb \<noteq> OPEN \<Longrightarrow> snd (can_execute imp t tc cb) = cb"
  "success_count cb = 0 \<Longrightarrow> success_count (snd (can_execute imp t tc cb)) = 0"
  by (simp_all add: can_execute_def transition_to_half_open_def Let_def)

lemma allow_request_count:
  "fst (allow_request now rl) \<Longrightarrow>
   request_count (snd (allow_request now rl))
     = (if now - window_start rl \<ge> window_duration rl then 1 else request_count rl + 1)"
  by (simp add: allow_request_def Let_def split: if_splits)

lemma allow_request_denied:
  "\<not> fst (allow_request now rl) \<Longrightarrow>
   request_count (snd (allow_request now rl))
     = (if now - window_start rl \<ge> window_duration rl then 0 else request_count rl)"
  by (simp add: allow_request_def Let_def split: if_splits)

lemma example_gates:
  "\<not> breaker_allows imp example_clock (example_client open_breaker)"
  "breaker_allows imp example_clock (example_client closed_breaker)"
  "breaker_allows imp example_clock example_client_limited"
  "limiter_allows imp example_clock (example_client closed_breaker)"
  "\<not> limiter_allows True example_clock example_client_limited"
  by (simp_all add: breaker_allows_def limiter_allows_def example_client_def
      example_client_limited_def example_breakers can_execute_def
      example_clock_def example_config_def allow_request_def RateLimiter_init_def Let_def)

lemma example_keys:
  "generate_cache_key example_dumps example_sha256 ''verify'' ''POST'' None = ''verify:POST:''"
  by (simp add: generate_cache_key_def example_sha256_def)

lemma example_retries:
  "execute_with_retry s transport_ok ep m p h = Some (Inr (JDict []), 1)"
  "execute_with_retry s transport_timeout ep m p h = Some (Inl (Exc TimeoutError []), 3)"
  by (simp_all add: execute_with_retry_cases execute_once_def transport_ok_def
      transport_timeout_def retryable_def)

text \<open>
  Claim C9, as amended. Unless the transport raises asyncio.CancelledError,
  \<open>call_api\<close> returns a response and raises nothing. A rejection by the breaker gate
  or by the rate limiter is returned with \<open>success = False\<close> and the gate's own message;
  an exception \<open>e\<close> that leaves the retry is returned with \<open>success = False\<close> and
  \<open>error_message = str(e)\<close>, so the message is the text the exception carries, which
  may be empty. Constructing an LRUCache with a \<open>maxsize\<close> that is not positive raises
  ValueError.
\<close>

theorem failures_are_returned_not_raised:
  "((\<forall>i msg. tr i \<noteq> Raises (Exc CancelledError msg)) \<longrightarrow>
      (\<exists>r n s'. call_api imp dumps sha clk tr ep m p h self = Some (Inr r, n, s'))) \<and>
   (\<not> breaker_allows imp clk self \<longrightarrow>
      (\<exists>r s'. call_api imp dumps sha clk tr ep m p h self = Some (Inr r, 0, s') \<and>
              \<not> success r \<and>
              error_message r = Some ''Circuit breaker is open - service unavailable'')) \<and>
   (breaker_allows imp clk self \<and> \<not> limiter_allows imp clk self \<longrightarrow>
      (\<exists>r s'. call_api imp dumps sha clk tr ep m p h self = Some (Inr r, 0, s') \<and>
              \<not> success r \<and> error_message r = Some ''Rate limit exceeded'')) \<and>
   (breaker_allows imp clk self \<and> limiter_allows imp clk self \<and>
    (imp \<longrightarrow> map_of (lru_cache (response_cache self)) (generate_cache_key dumps sha ep m p)
             = None) \<and>
    execute_with_retry self tr ep m p h = Some (Inl e, n) \<and> exc_type e \<noteq> CancelledError \<longrightarrow>
      (\<exists>r s'. call_api imp dumps sha clk tr ep m p h self = Some (Inr r, n, s') \<and>
              \<not> success r \<and> error_message r = Some (str_exc e))) \<and>
   (maxsize \<le> 0 \<longrightarrow>
      (LRUCache_init maxsize :: py_exception + (string, ExternalServiceResponse) LRUCache)
        = Inl (Exc ValueError ''maxsize must be positive''))"
proof (intro conjI impI)
  assume nc: "\<forall>i msg. tr i \<noteq> Raises (Exc CancelledError msg)"
  from call_api_try_total[of imp dumps sha clk tr ep m p h self]
  obtain res n s1 where t: "call_api_try imp dumps sha clk tr ep m p h self = Some (res, n, s1)"
    and c: "\<forall>e. res = Inl e \<longrightarrow>
        exc_type e = IntegrationError \<or> exc_type e = TypeError \<or>
        (\<exists>k. execute_with_retry self tr ep m p h = Some (Inl e, k))"
    by blast
  show "\<exists>r n s'. call_api imp dumps sha clk tr ep m p h self = Some (Inr r, n, s')"
  proof (cases res)
    case (Inr r)
    with t show ?thesis by (simp add: call_api_def)
  next
    case (Inl e)
    with c have "exc_type e \<noteq> CancelledError"
      using retry_exception_not_cancelled[OF nc] by auto
    from handler_result[OF t[unfolded Inl] this] show ?thesis by blast
  qed
next
  assume "\<not> breaker_allows imp clk self"
  from handler_result[OF try_blocked[OF this]]
  show "\<exists>r s'. call_api imp dumps sha clk tr ep m p h self = Some (Inr r, 0, s') \<and>
              \<not> success r \<and>
              error_message r = Some ''Circuit breaker is open - service unavailable''"
    by fastforce
next
  assume "breaker_allows imp clk self \<and> \<not> limiter_allows imp clk self"
  then have a: "breaker_allows imp clk self" "\<not> limiter_allows imp clk self" by simp_all
  from handler_result[OF try_limited[OF a]]
  show "\<exists>r s'. call_api imp dumps sha clk tr ep m p h self = Some (Inr r, 0, s') \<and>
              \<not> success r \<and> error_message r = Some ''Rate limit exceeded''"
    by fastforce
next
  assume a: "breaker_allows imp clk self \<and> limiter_allows imp clk self \<and>
    (imp \<longrightarrow> map_of (lru_cache (response_cache self)) (generate_cache_key dumps sha ep m p)
             = None) \<and>
    execute_with_retry self tr ep m p h = Some (Inl e, n) \<and> exc_type e \<noteq> CancelledError"
  then obtain s1 where "call_api_try imp dumps sha clk tr ep m p h self = Some (Inl e, n, s1)"
    using try_miss_raises[of imp clk self dumps sha ep m p tr h e n] by blast
  from handler_result[OF this] a
  show "\<exists>r s'. call_api imp dumps sha clk tr ep m p h self = Some (Inr r, n, s') \<and>
              \<not> success r \<and> error_message r = Some (str_exc e)"
    by blast
next
  assume "maxsize \<le> 0"
  then show "(LRUCache_init maxsize :: py_exception + (string, ExternalServiceResponse) LRUCache)
        = Inl (Exc ValueError ''maxsize must be positive'')"
    by (simp add: LRUCache_init_def)
qed

theorem failures_are_returned_not_raised_witness:
  "returned timeout_call \<noteq> None \<and>
   \<not> breaker_allows False example_clock (example_client open_breaker) \<and>
   map_option error_message (returned blocked_call)
     = Some (Some ''Circuit breaker is open - service unavailable'') \<and>
   \<not> limiter_allows True example_clock example_client_limited \<and>
   map_option error_message (returned limited_call) = Some (Some ''Rate limit exceeded'') \<and>
   execute_with_retry (example_client closed_breaker) transport_refused ''verify'' ''POST'' None None
     = Some (Inl (Exc (ClientError ''ClientConnectorError'') ''Cannot connect to host''), 3) \<and>
   map_option error_message (returned refused_call) = Some (Some ''Cannot connect to host'') \<and>
   (LRUCache_init 0 :: py_exception + (string, ExternalServiceResponse) LRUCache)
     = Inl (Exc ValueError ''maxsize must be positive'')"
proof -
  have nc: "\<forall>i msg. transport_timeout i \<noteq> Raises (Exc CancelledError msg)"
    by (simp add: transport_timeout_def)
  have h2: "\<not> breaker_allows False example_clock (example_client open_breaker)"
    by (rule example_gates)
  have h3: "breaker_allows True example_clock example_client_limited \<and>
    \<not> limiter_allows True example_clock example_client_limited"
    by (simp add: example_gates)
  have e: "execute_with_retry (example_client closed_breaker) transport_refused
       ''verify'' ''POST'' None None
     = Some (Inl (Exc (ClientError ''ClientConnectorError'') ''Cannot connect to host''), 3)"
    by (simp add: execute_with_retry_cases execute_once_def transport_refused_def retryable_def)
  have h4: "breaker_allows False example_clock (example_client closed_breaker) \<and>
    limiter_allows False example_clock (example_client closed_breaker) \<and>
    (False \<longrightarrow> map_of (lru_cache (response_cache (example_client closed_breaker)))
       (generate_cache_key example_dumps example_sha256 ''verify'' ''POST'' None) = None) \<and>
    execute_with_retry (example_client closed_breaker) transport_refused
       ''verify'' ''POST'' None None
     = Some (Inl (Exc (ClientError ''ClientConnectorError'') ''Cannot connect to host''), 3) \<and>
    exc_type (Exc (ClientError ''ClientConnectorError'') ''Cannot connect to host'')
      \<noteq> CancelledError"
    by (simp add: example_gates e)
  have h5: "(0::int) \<le> 0" by simp
  note a = failures_are_returned_not_raised
         [of transport_timeout False example_dumps example_sha256 example_clock
             "''verify''" "''POST''" None None "example_client closed_breaker"]
  from a[THEN conjunct1, THEN mp, OF nc]
  obtain r n s' where c: "timeout_call = Some (Inr r, n, s')"
    unfolding timeout_call_def by blast
  have p1: "returned timeout_call \<noteq> None"
    by (simp add: returned_def c)
  note b = failures_are_returned_not_raised
         [of transport_ok False example_dumps example_sha256 example_clock
             "''verify''" "''POST''" None None "example_client open_breaker"]
  from b[THEN conjunct2, THEN conjunct1, THEN mp, OF h2]
  obtain r2 s2 where q2: "blocked_call = Some (Inr r2, 0, s2)"
    "error_message r2 = Some ''Circuit breaker is open - service unavailable''"
    unfolding blocked_call_def by blast
  have p2: "map_option error_message (returned blocked_call)
     = Some (Some ''Circuit breaker is open - service unavailable'')"
    by (simp add: returned_def q2)
  note l = failures_are_returned_not_raised
         [of transport_ok True example_dumps example_sha256 example_clock
             "''verify''" "''POST''" None None example_client_limited]
  from l[THEN conjunct2, THEN conjunct2, THEN conjunct1, THEN mp, OF h3]
  obtain r3 s3 where q3: "limited_call = Some (Inr r3, 0, s3)"
    "error_message r3 = Some ''Rate limit exceeded''"
    unfolding limited_call_def by blast
  have p3: "map_option error_message (returned limited_call) = Some (Some ''Rate limit exceeded'')"
    by (simp add: returned_def q3)
  note f = failures_are_returned_not_raised
         [of transport_refused False example_dumps example_sha256 example_clock
             "''verify''" "''POST''" None None "example_client closed_breaker"
             "Exc (ClientError ''ClientConnectorError'') ''Cannot connect to host''" 3]
  from f[THEN conjunct2, THEN conjunct2, THEN conjunct2, THEN conjunct1, THEN mp, OF h4]
  obtain r4 s4 where q4: "refused_call = Some (Inr r4, 3, s4)"
    "error_message r4 = Some (str_exc (Exc (ClientError ''ClientConnectorError'') ''Cannot connect to host''))"
    unfolding refused_call_def by blast
  have p4: "map_option error_message (returned refused_call) = Some (Some ''Cannot connect to host'')"
    by (simp add: returned_def q4)
  note z = failures_are_returned_not_raised
         [of transport_ok False example_dumps example_sha256 example_clock
             "''verify''" "''POST''" None None "example_client closed_breaker" _ _ 0]
  from z[THEN conjunct2, THEN conjunct2, THEN conjunct2, THEN conjunct2, THEN mp, OF h5]
  have p5: "(LRUCache_init 0 :: py_exception + (string, ExternalServiceResponse) LRUCache)
     = Inl (Exc ValueError ''maxsize must be positive'')" .
  from p1 h2 p2 h3 p3 e p4 p5 show ?thesis by simp
qed

text \<open>
  Claim C9 as stated fails: a transport that raises a bare asyncio.TimeoutError, whose
  \<open>str\<close> is the empty string, gives a failure response whose \<open>error_message\<close> is
  empty.
\<close>

theorem timeout_yields_empty_error_message:
  "map_option success (returned timeout_call) = Some False \<and>
   invocations timeout_call = Some 3 \<and>
   map_option error_message (returned timeout_call) = Some (Some [])"
proof -
  have g: "breaker_allows False example_clock (example_client closed_breaker)"
    "limiter_allows False example_clock (example_client closed_breaker)"
    by (rule example_gates)+
  have "\<exists>s1. call_api_try False example_dumps example_sha256 example_clock transport_timeout
       ''verify'' ''POST'' None None (example_client closed_breaker)
     = Some (Inl (Exc TimeoutError []), 3, s1)"
    by (rule try_miss_raises[OF g]) (simp_all add: example_retries)
  then obtain s1 where t: "call_api_try False example_dumps example_sha256 example_clock transport_timeout
       ''verify'' ''POST'' None None (example_client closed_breaker)
     = Some (Inl (Exc TimeoutError []), 3, s1)" by blast
  show ?thesis
    unfolding timeout_call_def call_api_def t
    by (simp add: returned_def invocations_def Let_def)
qed

text \<open>
  What the handler does with a gate's rejection, for every client and every call. A call
  that the breaker gate rejects returns a response with \<open>success = False\<close> after no
  transport invocation, and \<open>record_failure\<close> has run on the breaker: the state is
  still Open, \<open>failure_count\<close> is one more and \<open>last_failure_time\<close> is the time of
  the rejected call. The same holds of a call that the rate limiter (the one modelled
  from the specification) denies.
\<close>

lemma gate_rejection_recorded_as_failure:
  "(\<not> breaker_allows imp clk self \<longrightarrow>
      (\<exists>r s' cb. call_api imp dumps sha clk tr ep m p h self = Some (Inr r, 0, s') \<and>
         \<not> success r \<and>
         circuit_breaker self = Some cb \<and>
         circuit_breaker s' = Some (record_failure imp (t_except clk) (t_open clk) cb) \<and>
         state (record_failure imp (t_except clk) (t_open clk) cb) = OPEN \<and>
         failure_count (record_failure imp (t_except clk) (t_open clk) cb) = failure_count cb + 1 \<and>
         success_count (record_failure imp (t_except clk) (t_open clk) cb) = success_count cb \<and>
         last_failure_time (record_failure imp (t_except clk) (t_open clk) cb) = t_except clk)) \<and>
   (breaker_allows imp clk self \<and> \<not> limiter_allows imp clk self \<longrightarrow>
      (\<exists>r s'. call_api imp dumps sha clk tr ep m p h self = Some (Inr r, 0, s') \<and>
         \<not> success r \<and>
         circuit_breaker s' =
           map_option (\<lambda>cb. record_failure imp (t_except clk) (t_open clk)
                               (snd (can_execute imp (t_gate clk) (t_half_open clk) cb)))
             (circuit_breaker self) \<and>
         (\<forall>cb. circuit_breaker self = Some cb \<longrightarrow>
            (\<exists>cb'. circuit_breaker s' = Some cb' \<and>
                   failure_count cb' = failure_count cb + 1 \<and>
                   last_failure_time cb' = t_except clk))))"
proof (intro conjI impI)
  assume nb: "\<not> breaker_allows imp clk self"
  then obtain cb where cb: "circuit_breaker self = Some cb"
    "\<not> fst (can_execute imp (t_gate clk) (t_half_open clk) cb)"
    by (auto simp: breaker_allows_def split: option.splits)
  from blocked_breaker_open[OF cb(2)] have op: "state cb = OPEN" .
  from handler_result[OF try_blocked[OF nb], of dumps sha tr ep m p h]
  obtain r s' where r: "call_api imp dumps sha clk tr ep m p h self = Some (Inr r, 0, s')"
    "\<not> success r"
    "circuit_breaker s' = map_option (record_failure imp (t_except clk) (t_open clk)) (circuit_breaker self)"
    by fastforce
  with cb op record_failure_open[OF op, of imp "t_except clk" "t_open clk"]
  show "\<exists>r s' cb. call_api imp dumps sha clk tr ep m p h self = Some (Inr r, 0, s') \<and>
         \<not> success r \<and>
         circuit_breaker self = Some cb \<and>
         circuit_breaker s' = Some (record_failure imp (t_except clk) (t_open clk) cb) \<and>
         state (record_failure imp (t_except clk) (t_open clk) cb) = OPEN \<and>
         failure_count (record_failure imp (t_except clk) (t_open clk) cb) = failure_count cb + 1 \<and>
         success_count (record_failure imp (t_except clk) (t_open clk) cb) = success_count cb \<and>
         last_failure_time (record_failure imp (t_except clk) (t_open clk) cb) = t_except clk"
    by (simp add: record_failure_counts)
next
  assume "breaker_allows imp clk self \<and> \<not> limiter_allows imp clk self"
  then have a: "breaker_allows imp clk self" "\<not> limiter_allows imp clk self" by simp_all
  have cbs: "circuit_breaker (after_limiter_gate imp clk (after_breaker_gate imp clk self))
      = map_option (\<lambda>cb. snd (can_execute imp (t_gate clk) (t_half_open clk) cb)) (circuit_breaker self)"
    by (simp add: after_limiter_gate_def after_breaker_gate_def split: option.splits)
  from handler_result[OF try_limited[OF a], of dumps sha tr ep m p h]
  obtain r s' where r: "call_api imp dumps sha clk tr ep m p h self = Some (Inr r, 0, s')"
    "\<not> success r"
    "circuit_breaker s' = map_option (record_failure imp (t_except clk) (t_open clk))
        (circuit_breaker (after_limiter_gate imp clk (after_breaker_gate imp clk self)))"
    by fastforce
  from r(3) cbs have c: "circuit_breaker s' =
           map_option (\<lambda>cb. record_failure imp (t_except clk) (t_open clk)
                               (snd (can_execute imp (t_gate clk) (t_half_open clk) cb)))
             (circuit_breaker self)"
    by (simp add: option.map_comp comp_def)
  from r(1,2) c
  show "\<exists>r s'. call_api imp dumps sha clk tr ep m p h self = Some (Inr r, 0, s') \<and>
         \<not> success r \<and>
         circuit_breaker s' =
           map_option (\<lambda>cb. record_failure imp (t_except clk) (t_open clk)
                               (snd (can_execute imp (t_gate clk) (t_half_open clk) cb)))
             (circuit_breaker self) \<and>
         (\<forall>cb. circuit_breaker self = Some cb \<longrightarrow>
            (\<exists>cb'. circuit_breaker s' = Some cb' \<and>
                   failure_count cb' = failure_count cb + 1 \<and>
                   last_failure_time cb' = t_except clk))"
    by (auto simp: record_failure_counts can_execute_frame)
qed

lemma blocked_step:
  "t - lft < 60 \<Longrightarrow>
   call_api False example_dumps example_sha256 (clock_at t) transport_ok ''verify'' ''POST'' None None
     ((example_client open_breaker)
        \<lparr>circuit_breaker := Some (open_breaker\<lparr>failure_count := fc, last_failure_time := lft\<rparr>),
         error_count := ec\<rparr>)
   = Some (Inr \<lparr>success = False, data = JDict [],
                error_message = Some ''Circuit breaker is open - service unavailable'',
                response_time_ms = 0, cached = False, resp_provider = ''custom'',
                api_call_count = 1,
                metadata = [(''endpoint'', JStr ''verify''), (''method'', JStr ''POST''),
                            (''error_type'', JStr ''IntegrationError'')]\<rparr>,
           0,
           (example_client open_breaker)
             \<lparr>circuit_breaker := Some (open_breaker\<lparr>failure_count := fc + 1, last_failure_time := t\<rparr>),
              error_count := ec + 1\<rparr>)"
  by (simp add: call_api_def call_api_try_def can_execute_def record_failure_def Let_def
      clock_at_def example_client_def example_breakers example_config_def example_api_config_def)

text \<open>
  Claim C4 does not hold of the code. The claim says that a call rejected by a gate leaves
  the breaker's counters as they were. In the code the rejection is raised inside the
  \<open>try\<close> block and the handler calls \<open>record_failure\<close> for it: a call at time 10
  against the open breaker (three failures, the last at time 3, recovery after 60 seconds)
  invokes no transport and leaves \<open>failure_count = 4\<close> and \<open>last_failure_time = 10\<close>.
  Every rejected call so postpones the recovery: calls at 10, 60, 110 and 160 are all
  rejected, although the last real failure was at time 3, while a single call at 110 is
  let through and succeeds.
\<close>

theorem gate_rejection_counts_as_failure:
  "map_option success (returned blocked_call) = Some False \<and>
   invocations blocked_call = Some 0 \<and>
   failure_count open_breaker = 3 \<and>
   last_failure_time open_breaker = 3 \<and>
   map_option failure_count (Option.bind (client_after blocked_call) circuit_breaker) = Some 4 \<and>
   map_option last_failure_time (Option.bind (client_after blocked_call) circuit_breaker)
     = Some 10 \<and>
   calls_at [10, 60, 110, 160] (example_client open_breaker)
     = [(False, 0), (False, 0), (False, 0), (False, 0)] \<and>
   calls_at [110] (example_client open_breaker) = [(True, 1)]"
proof -
  have t: "call_api_try False example_dumps example_sha256 example_clock transport_ok
       ''verify'' ''POST'' None None (example_client open_breaker)
     = Some (Inl (Exc IntegrationError ''Circuit breaker is open - service unavailable''), 0,
             example_client open_breaker)"
    by (rule try_blocked) (rule example_gates)
  have c: "map_option success (returned blocked_call) = Some False \<and>
     invocations blocked_call = Some 0 \<and>
     failure_count open_breaker = 3 \<and>
     last_failure_time open_breaker = 3 \<and>
     map_option failure_count (Option.bind (client_after blocked_call) circuit_breaker) = Some 4 \<and>
     map_option last_failure_time (Option.bind (client_after blocked_call) circuit_breaker)
       = Some 10"
    unfolding blocked_call_def call_api_def t
    by (simp add: returned_def invocations_def client_after_def
        Let_def example_client_def record_failure_counts example_breakers example_clock_def)
  have s: "example_client open_breaker =
     (example_client open_breaker)
        \<lparr>circuit_breaker := Some (open_breaker\<lparr>failure_count := 3, last_failure_time := 3\<rparr>),
         error_count := 0\<rparr>"
    by (simp add: example_client_def example_breakers)
  have a: "calls_at [10, 60, 110, 160] (example_client open_breaker)
     = [(False, 0), (False, 0), (False, 0), (False, 0)]"
    by (subst s) (simp add: blocked_step)
  have b: "calls_at [110] (example_client open_breaker) = [(True, 1)]"
    by (simp add: call_api_def call_api_try_def can_execute_def record_success_def
      transition_to_half_open_def Let_def execute_with_retry_cases execute_once_def transport_ok_def
      clock_at_def example_client_def example_breakers example_config_def example_api_config_def)
  from c a b show ?thesis by simp
qed

text \<open>
  The response cache of a client stays empty. A new client has an empty cache, and no call
  changes that: the only statement of \<open>call_api\<close> that writes the cache is the call of
  \<open>LRUCache.set\<close> with the keyword \<open>ttl\<close>, which raises, and with the imports
  unavailable the cache is not touched at all. So the lookup of \<open>call_api\<close> never hits
  on a client that the code has built.
\<close>

lemma gates_keep_cache:
  "response_cache (after_limiter_gate imp clk (after_breaker_gate imp clk self)) = response_cache self"
  "response_cache (after_breaker_gate imp clk self) = response_cache self"
  by (simp_all add: after_limiter_gate_def after_breaker_gate_def split: option.splits)

lemma call_api_try_keeps_cache_empty:
  assumes e: "lru_cache (response_cache self) = []"
    and t: "call_api_try imp dumps sha clk tr ep m p h self = Some (res, n, s1)"
  shows "lru_cache (response_cache s1) = []"
proof (cases "breaker_allows imp clk self")
  case False
  from try_blocked[OF False, of dumps sha tr ep m p h] t e show ?thesis by simp
next
  case ba: True
  show ?thesis
  proof (cases "limiter_allows imp clk self")
    case False
    from try_limited[OF ba False, of dumps sha tr ep m p h] t e show ?thesis
      by (auto simp: gates_keep_cache)
  next
    case la: True
    from e have miss: "imp \<Longrightarrow> map_of (lru_cache (response_cache self))
        (generate_cache_key dumps sha ep m p) = None"
      by simp
    define s0 where "s0 = (if imp then (after_limiter_gate imp clk (after_breaker_gate imp clk self))
                 \<lparr>response_cache :=
                    snd (LRUCache_get (generate_cache_key dumps sha ep m p) None (response_cache self))\<rparr>
               else after_breaker_gate imp clk self)"
    have c0: "lru_cache (response_cache s0) = []"
      using e by (simp add: s0_def gates_keep_cache LRUCache_get_def)
    obtain r k where ew: "execute_with_retry s0 tr ep m p h = Some (r, k)"
      by (cases "execute_with_retry s0 tr ep m p h") (auto simp: execute_with_retry_cases)
    from try_miss[OF ba la miss ew s0_def] t c0 show ?thesis
      by (cases r) (auto simp: Let_def split: option.splits if_splits)
  qed
qed

lemma call_api_keeps_cache_empty:
  assumes e: "lru_cache (response_cache self) = []"
    and c: "call_api imp dumps sha clk tr ep m p h self = Some (res, n, s')"
  shows "lru_cache (response_cache s') = []"
proof -
  from c obtain r k s1 where t: "call_api_try imp dumps sha clk tr ep m p h self = Some (r, k, s1)"
    by (cases "call_api_try imp dumps sha clk tr ep m p h self") (auto simp: call_api_def)
  from call_api_try_keeps_cache_empty[OF e t] have c1: "lru_cache (response_cache s1) = []" .
  from c t c1 show ?thesis
    by (cases r) (auto simp: call_api_def Let_def split: if_splits option.splits)
qed

lemma new_client_cache_empty:
  "lru_cache (response_cache (ExternalAPIClient_init cfg now)) = []"
  by (simp add: ExternalAPIClient_init_def)

text \<open>
  Claim C1 does not hold of the code. A call that passes the gates and misses the cache,
  and whose transport succeeds, records one breaker success; then, with the imports
  available, the call of \<open>LRUCache.set\<close> with the keyword \<open>ttl\<close> raises TypeError:
  the handler records a breaker failure, nothing is stored in the cache and the response
  has \<open>success = False\<close>. With the imports unavailable the response has
  \<open>success = True\<close> and there is no cache to store it in.
\<close>

theorem successful_call_is_not_cached:
  assumes "breaker_allows imp clk self" and "limiter_allows imp clk self"
    and "imp \<longrightarrow> map_of (lru_cache (response_cache self)) (generate_cache_key dumps sha ep m p) = None"
    and "execute_with_retry self tr ep m p h = Some (Inr d, n)"
  shows "\<exists>r s'. call_api imp dumps sha clk tr ep m p h self = Some (Inr r, n, s') \<and>
           lru_cache (response_cache s') = lru_cache (response_cache self) \<and>
           (imp \<longrightarrow>
              \<not> success r \<and>
              map_of (metadata r) ''error_type'' = Some (JStr ''TypeError'') \<and>
              circuit_breaker s' =
                map_option (\<lambda>cb. record_failure imp (t_except clk) (t_open clk)
                                    (record_success imp (t_closed clk)
                                       (snd (can_execute imp (t_gate clk) (t_half_open clk) cb))))
                  (circuit_breaker self)) \<and>
           (\<not> imp \<longrightarrow>
              success r \<and> data r = d \<and>
              circuit_breaker s' =
                map_option (\<lambda>cb. record_success imp (t_closed clk)
                                    (snd (can_execute imp (t_gate clk) (t_half_open clk) cb)))
                  (circuit_breaker self))"
proof -
  define s1 where "s1 = (if imp then (after_limiter_gate imp clk (after_breaker_gate imp clk self))
                 \<lparr>response_cache :=
                    snd (LRUCache_get (generate_cache_key dumps sha ep m p) None (response_cache self))\<rparr>
               else after_breaker_gate imp clk self)"
  have e: "execute_with_retry s1 tr ep m p h = Some (Inr d, n)"
    using assms(4) execute_with_retry_any_client[of s1 tr ep m p h self] by simp
  from assms(3) have miss: "imp \<Longrightarrow> map_of (lru_cache (response_cache self)) (generate_cache_key dumps sha ep m p) = None"
    by simp
  note t = try_miss[OF assms(1,2) miss e s1_def]
  have cb1: "circuit_breaker s1 =
      map_option (\<lambda>cb. snd (can_execute imp (t_gate clk) (t_half_open clk) cb)) (circuit_breaker self)"
    by (simp add: s1_def after_limiter_gate_def after_breaker_gate_def split: option.splits)
  have ca1: "lru_cache (response_cache s1) = lru_cache (response_cache self)"
    using miss
    by (auto simp: s1_def after_limiter_gate_def after_breaker_gate_def LRUCache_get_def
        split: option.splits)
  define s2 where "s2 = (case circuit_breaker s1 of
                       None \<Rightarrow> s1
                     | Some cb \<Rightarrow> s1\<lparr>circuit_breaker := Some (record_success imp (t_closed clk) cb)\<rparr>)"
  have cb2: "circuit_breaker s2 =
      map_option (\<lambda>cb. record_success imp (t_closed clk)
                           (snd (can_execute imp (t_gate clk) (t_half_open clk) cb)))
        (circuit_breaker self)"
    by (simp add: s2_def cb1 split: option.splits)
  have ca2: "lru_cache (response_cache s2) = lru_cache (response_cache self)"
    by (simp add: s2_def ca1 split: option.splits)
  show ?thesis
  proof (cases imp)
    case True
    with t have "call_api_try imp dumps sha clk tr ep m p h self =
       Some (Inl (Exc TypeError
                  (''LRUCache.set() got an unexpected keyword argument '' @ [CHR 0x27] @ ''ttl'' @ [CHR 0x27])),
                  n, s2)"
      by (simp add: s2_def Let_def)
    from handler_result[OF this] True cb2 ca2 show ?thesis
      by (fastforce simp: option.map_comp comp_def)
  next
    case False
    with t have "call_api_try imp dumps sha clk tr ep m p h self =
       Some (Inr \<lparr>success = True, data = d, error_message = None,
                             response_time_ms = (t_done clk - t_start clk) * 1000, cached = False,
                             resp_provider = provider_value (provider (api_config self)),
                             api_call_count = 1,
                             metadata = [(''endpoint'', JStr ep), (''method'', JStr m),
                                         (''cached'', JBool False)]\<rparr>,
                      n,
                      s2\<lparr>call_count := call_count self + 1,
                         total_response_time :=
                           total_response_time self + (t_done clk - t_start clk) * 1000\<rparr>)"
      by (simp add: s2_def Let_def)
    with False cb2 ca2 show ?thesis
      by (simp add: call_api_def)
  qed
qed

theorem successful_call_is_not_cached_witness:
  "breaker_allows True example_clock (example_client closed_breaker) \<and>
   limiter_allows True example_clock (example_client closed_breaker) \<and>
   execute_with_retry (example_client closed_breaker) transport_ok ''verify'' ''POST'' None None
     = Some (Inr (JDict []), 1) \<and>
   map_option success (returned (ok_call True)) = Some False \<and>
   invocations (ok_call True) = Some 1 \<and>
   map_option lru_cache (map_option response_cache (client_after (ok_call True))) = Some [] \<and>
   map_option failure_count (Option.bind (client_after (ok_call True)) circuit_breaker) = Some 1 \<and>
   map_option success (returned (ok_call False)) = Some True \<and>
   map_option lru_cache (map_option response_cache (client_after (ok_call False))) = Some []"
proof -
  have g: "breaker_allows imp example_clock (example_client closed_breaker)"
    "limiter_allows imp example_clock (example_client closed_breaker)" for imp
    by (rule example_gates)+
  have miss: "imp \<longrightarrow> map_of (lru_cache (response_cache (example_client closed_breaker)))
       (generate_cache_key example_dumps example_sha256 ''verify'' ''POST'' None) = None" for imp
    by (simp add: example_client_def)
  have e: "execute_with_retry (example_client closed_breaker) transport_ok ''verify'' ''POST'' None None
     = Some (Inr (JDict []), 1)"
    by (rule example_retries)
  have cb: "circuit_breaker (example_client closed_breaker) = Some closed_breaker"
    "lru_cache (response_cache (example_client closed_breaker)) = []"
    by (simp_all add: example_client_def)
  have f: "failure_count (record_failure True (t_except example_clock) (t_open example_clock)
             (record_success True (t_closed example_clock)
               (snd (can_execute True (t_gate example_clock) (t_half_open example_clock)
                  closed_breaker)))) = 1"
    by (simp add: record_failure_counts record_success_def can_execute_def example_breakers)
  from successful_call_is_not_cached [OF g(1) g(2) miss e, of True] cb f
  have t: "map_option success (returned (ok_call True)) = Some False \<and>
     invocations (ok_call True) = Some 1 \<and>
     map_option lru_cache (map_option response_cache (client_after (ok_call True))) = Some [] \<and>
     map_option failure_count (Option.bind (client_after (ok_call True)) circuit_breaker) = Some 1"
    by (auto simp: ok_call_def returned_def invocations_def client_after_def)
  from successful_call_is_not_cached [OF g(1) g(2) miss e, of False] cb
  have u: "map_option success (returned (ok_call False)) = Some True \<and>
     map_option lru_cache (map_option response_cache (client_after (ok_call False))) = Some []"
    by (auto simp: ok_call_def returned_def invocations_def client_after_def)
  from g e t u show ?thesis by simp
qed

end
